theory Spec2Isabelle
  imports Complex_Main "HOL-Library.Word" "HOL-Library.Monad_Syntax" "HOL-Library.Sublist"
begin

unbundle bit_operations_syntax

section \<open>Course outline (types.ts)\<close>

text \<open>
  The interfaces \<^verbatim>\<open>Topic\<close>, \<^verbatim>\<open>Chapter\<close> and \<^verbatim>\<open>CourseStructure\<close>.
  The fields \<^verbatim>\<open>id\<close> and \<^verbatim>\<open>title\<close> occur in several interfaces and \<open>id\<close> is a
  HOL constant, so they carry a prefix: \<open>t_\<close> for a topic, \<open>ch_\<close> for a chapter,
  \<open>cs_\<close> for the course.
\<close>

record Topic =
  t_id :: string
  t_title :: string
  description :: string
  isCompleted :: bool
  isLocked :: bool

record Chapter =
  ch_id :: string
  ch_title :: string
  topics :: "Topic list"

record CourseStructure =
  cs_title :: string
  summary :: string
  chapters :: "Chapter list"

datatype AppState = UPLOAD | ANALYZING | DASHBOARD | LESSON | QUIZ

section \<open>Progression (App component, handleQuizFinish)\<close>

text \<open>
  The part of the App component's state that \<^verbatim>\<open>handleQuizFinish\<close> reads and writes:
  \<^verbatim>\<open>appState\<close>, \<^verbatim>\<open>courseStructure\<close> and \<^verbatim>\<open>currentTopic\<close> (the last two may be null).
\<close>

record App =
  appState :: AppState
  courseStructure :: "CourseStructure option"
  currentTopic :: "Topic option"

text \<open>\<^verbatim>\<open>Array.prototype.findIndex\<close>: the first index whose element satisfies the
  predicate, \<open>-1\<close> when there is none.\<close>

fun findIndex :: "('a \<Rightarrow> bool) \<Rightarrow> 'a list \<Rightarrow> int" where
  "findIndex p [] = - 1"
| "findIndex p (x # xs) =
     (if p x then 0 else (let r = findIndex p xs in if r < 0 then - 1 else r + 1))"

text \<open>Reading \<^verbatim>\<open>xs[i]\<close>: \<^verbatim>\<open>undefined\<close> (here \<open>None\<close>) outside the array.\<close>

definition js_index :: "'a list \<Rightarrow> int \<Rightarrow> 'a option" where
  "js_index xs i = (if 0 \<le> i \<and> i < int (length xs) then Some (xs ! nat i) else None)"

text \<open>\<^verbatim>\<open>courseStructure.chapters.flatMap(ch => ch.topics)\<close>\<close>

definition allTopics :: "CourseStructure \<Rightarrow> Topic list" where
  "allTopics cs = concat (map topics (chapters cs))"

text \<open>The callback given to \<^verbatim>\<open>ch.topics.map\<close> inside \<^verbatim>\<open>handleQuizFinish\<close>.\<close>

definition updateTopic :: "Topic \<Rightarrow> Topic option \<Rightarrow> Topic \<Rightarrow> Topic" where
  "updateTopic cur nextTopic t =
     (if t_id t = t_id cur then t\<lparr>isCompleted := True\<rparr>
      else if (case nextTopic of None \<Rightarrow> False | Some n \<Rightarrow> t_id t = t_id n)
           then t\<lparr>isLocked := False\<rparr>
      else t)"

definition handleQuizFinish :: "bool \<Rightarrow> App \<Rightarrow> App" where
  "handleQuizFinish passed s =
     (case courseStructure s of
        None \<Rightarrow> s
      | Some cs \<Rightarrow>
         (case currentTopic s of
            None \<Rightarrow> s
          | Some cur \<Rightarrow>
              if passed then
                (let all = allTopics cs;
                     currentIdx = findIndex (\<lambda>t. t_id t = t_id cur) all;
                     nextTopic = js_index all (currentIdx + 1);
                     newChapters =
                       map (\<lambda>ch. ch\<lparr>topics := map (updateTopic cur nextTopic) (topics ch)\<rparr>)
                         (chapters cs);
                     updatedStructure = cs\<lparr>chapters := newChapters\<rparr>
                 in s\<lparr>courseStructure := Some updatedStructure, appState := DASHBOARD\<rparr>)
              else s\<lparr>appState := LESSON\<rparr>))"



text \<open>
  Example data for the progression update: two chapters, three topics, identifiers as
  structure analysis assigns them; the first topic is completed, the second is open, the
  third is still locked. \<open>example_app tid\<close> is the App state in the quiz of the topic
  with identifier \<open>tid\<close>.
\<close>

definition example_course :: CourseStructure where
  "example_course =
     \<lparr>cs_title = ''Course'', summary = ''Summary'', chapters =
        [\<lparr>ch_id = ''ch-0'', ch_title = ''One'', topics =
            [\<lparr>t_id = ''topic-0'', t_title = ''A'', description = ''a'',
              isCompleted = True, isLocked = False\<rparr>,
             \<lparr>t_id = ''topic-1'', t_title = ''B'', description = ''b'',
              isCompleted = False, isLocked = False\<rparr>]\<rparr>,
         \<lparr>ch_id = ''ch-1'', ch_title = ''Two'', topics =
            [\<lparr>t_id = ''topic-2'', t_title = ''C'', description = ''c'',
              isCompleted = False, isLocked = True\<rparr>]\<rparr>]\<rparr>"

definition example_app :: "string \<Rightarrow> App" where
  "example_app tid =
     \<lparr>appState = QUIZ, courseStructure = Some example_course,
      currentTopic = Some \<lparr>t_id = tid, t_title = ''B'', description = ''b'',
                           isCompleted = False, isLocked = False\<rparr>\<rparr>"

text \<open>An outline whose first chapter has no topics and whose topics are all locked.\<close>

definition locked_course :: CourseStructure where
  "locked_course =
     \<lparr>cs_title = ''Course'', summary = ''Summary'', chapters =
        [\<lparr>ch_id = ''ch-0'', ch_title = ''One'', topics = []\<rparr>,
         \<lparr>ch_id = ''ch-1'', ch_title = ''Two'', topics =
            [\<lparr>t_id = ''topic-0'', t_title = ''A'', description = ''a'',
              isCompleted = False, isLocked = True\<rparr>,
             \<lparr>t_id = ''topic-1'', t_title = ''B'', description = ''b'',
              isCompleted = False, isLocked = True\<rparr>]\<rparr>]\<rparr>"

definition stale_app :: App where
  "stale_app =
     \<lparr>appState = QUIZ, courseStructure = Some locked_course,
      currentTopic = Some \<lparr>t_id = ''topic-9'', t_title = ''Z'', description = ''z'',
                           isCompleted = False, isLocked = False\<rparr>\<rparr>"

section \<open>Errors and strings (services/geminiService.ts)\<close>

text \<open>
  A thrown value, as far as the service looks at it: an optional \<^verbatim>\<open>message\<close> and an
  optional numeric \<^verbatim>\<open>status\<close>. \<^verbatim>\<open>new Error(msg)\<close> has the message and no status.
\<close>

record JsError =
  message :: "string option"
  status :: "nat option"

definition Error :: "string \<Rightarrow> JsError" where
  "Error msg = \<lparr>message = Some msg, status = None\<rparr>"

text \<open>\<^verbatim>\<open>String.prototype.includes\<close>: the argument occurs as a contiguous substring
  (\<open>includes\<close> is an Isabelle keyword, hence the prefix).\<close>

fun str_includes :: "string \<Rightarrow> string \<Rightarrow> bool" where
  "str_includes [] sub = (sub = [])"
| "str_includes (c # cs) sub = (prefix sub (c # cs) \<or> str_includes cs sub)"

text \<open>\<^verbatim>\<open>error.message?.includes(sub)\<close>: falsy when there is no message.\<close>

definition message_includes :: "JsError \<Rightarrow> string \<Rightarrow> bool" where
  "message_includes error sub =
     (case message error of None \<Rightarrow> False | Some m \<Rightarrow> str_includes m sub)"

section \<open>Retry with exponential backoff (withRetry)\<close>

text \<open>
  An asynchronous operation is a function of the outside world \<open>'w\<close> (the service, the
  network): one invocation either throws (\<open>Inl\<close>) or returns a value (\<open>Inr\<close>) and leaves
  the world changed, so successive invocations may end differently.

  \<^verbatim>\<open>withRetry\<close> returns the outcome, the world after the last invocation, and the list of
  delays (in milliseconds) it waited with \<^verbatim>\<open>setTimeout\<close>, in order: one per retry.
\<close>

type_synonym ('a, 'w) operation = "'w \<Rightarrow> (JsError + 'a) \<times> 'w"

definition isNetworkError :: "JsError \<Rightarrow> bool" where
  "isNetworkError error =
     (message_includes error ''xhr'' \<or> message_includes error ''fetch'' \<or>
      message_includes error ''NetworkError'')"

definition isServerError :: "JsError \<Rightarrow> bool" where
  "isServerError error = (status error = Some 503 \<or> status error = Some 500)"

function withRetry ::
  "('a, 'w) operation \<Rightarrow> int \<Rightarrow> nat \<Rightarrow> 'w \<Rightarrow> ((JsError + 'a) \<times> 'w) \<times> nat list" where
  "withRetry operation retries delay w =
     (case operation w of
        (Inr v, w') \<Rightarrow> ((Inr v, w'), [])
      | (Inl error, w') \<Rightarrow>
          if retries > 0 \<and> (isNetworkError error \<or> isServerError error) then
            (let (r, waits) = withRetry operation (retries - 1) (delay * 2) w'
             in (r, delay # waits))
          else ((Inl error, w'), []))"
  by pat_completeness auto
termination
  by (relation "measure (\<lambda>(operation, retries, delay, w). nat retries)") auto

text \<open>
  A scripted operation for examples: the world is the list of outcomes still to come, each
  invocation consumes the first. When the script is used up the operation throws.
\<close>

definition scripted :: "('a, (JsError + 'a) list) operation" where
  "scripted w = (case w of [] \<Rightarrow> (Inl (Error ''script exhausted''), []) | x # xs \<Rightarrow> (x, xs))"

section \<open>Structure analysis (analyzePdfStructure)\<close>

text \<open>
  ECMAScript's white space and line terminators among the code units below 256 (the
  class \<^verbatim>\<open>\s\<close> of a regular expression, also what \<^verbatim>\<open>trim\<close> removes): TAB, LF, VT, FF, CR,
  SPACE and NO-BREAK SPACE. Strings are lists of 8-bit characters here, so the white space
  characters above U+00FF do not occur.
\<close>

definition isWhiteSpace :: "char \<Rightarrow> bool" where
  "isWhiteSpace c = (of_char c \<in> {9, 10, 11, 12, 13, 32, 160 :: nat})"

text \<open>\<^verbatim>\<open>str.replace(/[\r\n\s]/g, '')\<close>\<close>

definition cleanBase64 :: "string \<Rightarrow> string" where
  "cleanBase64 str = filter (\<lambda>c. \<not> isWhiteSpace c) str"

text \<open>A number inside a template literal (\<^verbatim>\<open>`ch-${cIdx}`\<close>) prints in decimal.\<close>

definition digit_char :: "nat \<Rightarrow> char" where
  "digit_char d = char_of (of_char CHR ''0'' + d)"

fun decimal :: "nat \<Rightarrow> string" where
  "decimal n = (if 10 \<le> n then decimal (n div 10) @ [digit_char (n mod 10)] else [digit_char n])"

declare decimal.simps [simp del]

text \<open>
  The JSON the service is asked for:
  \<^verbatim>\<open>{ title, summary, chapters: [{ title, topics: [{ title, description }] }] }\<close>.
\<close>

record RawTopic =
  rt_title :: string
  rt_description :: string

record RawChapter =
  rc_title :: string
  rc_topics :: "RawTopic list"

record RawCourse =
  r_title :: string
  r_summary :: string
  r_chapters :: "RawChapter list"

text \<open>The response of \<^verbatim>\<open>generateContent\<close>, as far as structure analysis reads it: its
  \<^verbatim>\<open>text\<close>, which may be undefined.\<close>

record TextResponse =
  response_text :: "string option"

text \<open>
  \<^verbatim>\<open>ch.topics.map((t, tIdx) => ...)\<close> inside \<^verbatim>\<open>rawData.chapters.map((ch, cIdx) => ...)\<close>.
  The two callbacks share the variable \<^verbatim>\<open>topicCounter\<close>, which \<^verbatim>\<open>topicCounter++\<close> reads and
  increments once per topic: the functions take its value and return the new one.
\<close>

fun mapTopics :: "nat \<Rightarrow> nat \<Rightarrow> nat \<Rightarrow> RawTopic list \<Rightarrow> Topic list \<times> nat" where
  "mapTopics cIdx tIdx topicCounter [] = ([], topicCounter)"
| "mapTopics cIdx tIdx topicCounter (t # ts) =
     (let isFirst = (cIdx = 0 \<and> tIdx = 0);
          topic = \<lparr>t_id = ''topic-'' @ decimal topicCounter,
                   t_title = rt_title t,
                   description = rt_description t,
                   isCompleted = False,
                   isLocked = (\<not> isFirst)\<rparr>;
          (rest, topicCounter') = mapTopics cIdx (tIdx + 1) (topicCounter + 1) ts
      in (topic # rest, topicCounter'))"

fun mapChapters :: "nat \<Rightarrow> nat \<Rightarrow> RawChapter list \<Rightarrow> Chapter list \<times> nat" where
  "mapChapters cIdx topicCounter [] = ([], topicCounter)"
| "mapChapters cIdx topicCounter (ch # chs) =
     (let (ts, topicCounter') = mapTopics cIdx 0 topicCounter (rc_topics ch);
          chapter = \<lparr>ch_id = ''ch-'' @ decimal cIdx,
                     ch_title = rc_title ch,
                     topics = ts\<rparr>;
          (rest, topicCounter'') = mapChapters (cIdx + 1) topicCounter' chs
      in (chapter # rest, topicCounter''))"

text \<open>The object \<^verbatim>\<open>structuredData\<close> built from the parsed JSON \<^verbatim>\<open>rawData\<close>.\<close>

definition structuredData :: "RawCourse \<Rightarrow> CourseStructure" where
  "structuredData rawData =
     \<lparr>cs_title = r_title rawData,
      summary = r_summary rawData,
      chapters = fst (mapChapters 0 0 (r_chapters rawData))\<rparr>"

definition unreadableMessage :: string where
  "unreadableMessage =
     ''The PDF appears to be empty, encrypted, or corrupted. Please try a different file.''"

definition tooLargeMessage :: string where
  "tooLargeMessage =
     ''The PDF file is too large for the browser to process directly. Please try a smaller PDF (under 4MB) or compress it.''"

text \<open>
  The closure that \<^verbatim>\<open>analyzePdfStructure\<close> hands to \<^verbatim>\<open>withRetry\<close>: one call of the service,
  the check of the response, the identifiers, and the \<^verbatim>\<open>catch\<close> that rewrites some errors.
  Two things are parameters: \<open>generateContent\<close>, the call of the external service with the
  cleaned document (it throws or answers, and changes the world), and \<open>parse\<close>, which
  stands for \<^verbatim>\<open>JSON.parse\<close> and the reading of the parsed value's fields (it throws on text
  that is not JSON of the expected shape).
\<close>

definition analyzeAttempt ::
  "(string \<Rightarrow> JsError + RawCourse) \<Rightarrow> (string \<Rightarrow> (TextResponse, 'w) operation) \<Rightarrow> string
     \<Rightarrow> (CourseStructure, 'w) operation" where
  "analyzeAttempt parse generateContent base64Pdf w =
     (let (answer, w') = generateContent (cleanBase64 base64Pdf) w;
          tried =
            (case answer of
               Inl error \<Rightarrow> Inl error
             | Inr response \<Rightarrow>
                 (case response_text response of
                    None \<Rightarrow> Inl (Error ''Failed to generate course structure'')
                  | Some txt \<Rightarrow>
                      if txt = [] then Inl (Error ''Failed to generate course structure'')
                      else (case parse txt of
                              Inl error \<Rightarrow> Inl error
                            | Inr rawData \<Rightarrow> Inr (structuredData rawData))))
      in case tried of
           Inr structured \<Rightarrow> (Inr structured, w')
         | Inl error \<Rightarrow>
             if message_includes error ''document has no pages'' \<or> status error = Some 400
             then (Inl (Error unreadableMessage), w')
             else if message_includes error ''xhr'' \<or> message_includes error ''Rpc failed'' \<or>
                     status error = Some 500
             then (Inl (Error tooLargeMessage), w')
             else (Inl error, w'))"

definition analyzePdfStructure ::
  "(string \<Rightarrow> JsError + RawCourse) \<Rightarrow> (string \<Rightarrow> (TextResponse, 'w) operation) \<Rightarrow> string
     \<Rightarrow> 'w \<Rightarrow> ((JsError + CourseStructure) \<times> 'w) \<times> nat list" where
  "analyzePdfStructure parse generateContent base64Pdf w =
     withRetry (analyzeAttempt parse generateContent base64Pdf) 2 1000 w"

text \<open>
  Example for structure analysis: a service that answers every call with the same text,
  a parser that reads this text as an outline of two chapters, the first of them without
  topics, and a service that fails every call with the same error.
\<close>

definition emptyFirstChapter :: RawCourse where
  "emptyFirstChapter =
     \<lparr>r_title = ''Course'', r_summary = ''Summary'', r_chapters =
        [\<lparr>rc_title = ''Preface'', rc_topics = []\<rparr>,
         \<lparr>rc_title = ''Basics'', rc_topics =
            [\<lparr>rt_title = ''A'', rt_description = ''a''\<rparr>,
             \<lparr>rt_title = ''B'', rt_description = ''b''\<rparr>]\<rparr>]\<rparr>"

definition answering :: "string \<Rightarrow> string \<Rightarrow> (TextResponse, nat) operation" where
  "answering txt request calls = (Inr \<lparr>response_text = Some txt\<rparr>, calls + 1)"

definition failing :: "JsError \<Rightarrow> string \<Rightarrow> (TextResponse, nat) operation" where
  "failing error request calls = (Inl error, calls + 1)"

definition parseAs :: "RawCourse \<Rightarrow> string \<Rightarrow> JsError + RawCourse" where
  "parseAs rawData txt = Inr rawData"

section \<open>Image synthesis (generateLessonImage)\<close>

text \<open>
  The response of the image model as the function reads it:
  \<^verbatim>\<open>response.candidates?.[0]?.content?.parts\<close>, each part with an optional \<^verbatim>\<open>inlineData\<close>
  of optional \<^verbatim>\<open>mimeType\<close> and \<^verbatim>\<open>data\<close>. Every level may be undefined.
\<close>

record InlineData =
  mimeType :: "string option"
  data :: "string option"

record Part =
  part_text :: "string option"
  inlineData :: "InlineData option"

record Content =
  parts :: "Part list option"

record Candidate =
  content :: "Content option"

record ImageResponse =
  candidates :: "Candidate list option"

text \<open>\<^verbatim>\<open>response.candidates?.[0]?.content?.parts || []\<close>\<close>

definition responseParts :: "ImageResponse \<Rightarrow> Part list" where
  "responseParts response =
     (case candidates response of
        None \<Rightarrow> []
      | Some cands \<Rightarrow>
          (case js_index cands 0 of
             None \<Rightarrow> []
           | Some candidate \<Rightarrow>
               (case content candidate of
                  None \<Rightarrow> []
                | Some c \<Rightarrow> (case parts c of None \<Rightarrow> [] | Some ps \<Rightarrow> ps))))"

text \<open>A value inside a template literal: \<^verbatim>\<open>undefined\<close> prints as the word.\<close>

definition template :: "string option \<Rightarrow> string" where
  "template v = (case v of None \<Rightarrow> ''undefined'' | Some s \<Rightarrow> s)"

definition dataUri :: "InlineData \<Rightarrow> string" where
  "dataUri d = ''data:'' @ template (mimeType d) @ '';base64,'' @ template (data d)"

text \<open>The \<^verbatim>\<open>for ... of\<close> loop over the parts, which returns at the first part that has
  \<^verbatim>\<open>inlineData\<close>; \<open>None\<close> when the loop runs to its end.\<close>

fun firstInlineImage :: "Part list \<Rightarrow> string option" where
  "firstInlineImage [] = None"
| "firstInlineImage (part # rest) =
     (case inlineData part of
        Some d \<Rightarrow> Some (dataUri d)
      | None \<Rightarrow> firstInlineImage rest)"

definition placeholder :: string where
  "placeholder = ''https://picsum.photos/800/450?grayscale&blur=2''"

text \<open>
  The function first builds the client (\<^verbatim>\<open>const ai = getAiClient()\<close>, that is
  \<^verbatim>\<open>new GoogleGenAI({ apiKey: process.env.API_KEY })\<close>), outside the \<^verbatim>\<open>try\<close>: the constructor
  belongs to the external library and may throw, for instance when no API key is set, and
  then the function throws what the constructor threw. \<open>getAiClient\<close> is therefore a
  parameter: \<open>Inl\<close> the value thrown, \<open>Inr\<close> the client. \<open>generateContent\<close> is the call of
  the external image model through the client, with the prompt. The result is again an
  outcome, \<open>Inl\<close> for a value thrown to the caller; everything after the construction of
  the client is inside the \<^verbatim>\<open>try\<close>, whose \<^verbatim>\<open>catch\<close> returns the placeholder.
\<close>

definition generateLessonImage ::
  "JsError + 'c \<Rightarrow> ('c \<Rightarrow> string \<Rightarrow> (ImageResponse, 'w) operation) \<Rightarrow> string
     \<Rightarrow> (string, 'w) operation" where
  "generateLessonImage getAiClient generateContent prompt w =
     (case getAiClient of
        Inl thrown \<Rightarrow> (Inl thrown, w)
      | Inr ai \<Rightarrow>
          (let (answer, w') = generateContent ai prompt w
           in case answer of
                Inl e \<Rightarrow> (Inr placeholder, w')
              | Inr response \<Rightarrow>
                  (case firstInlineImage (responseParts response) of
                     Some url \<Rightarrow> (Inr url, w')
                   | None \<Rightarrow> (Inr placeholder, w'))))"

text \<open>Examples for image synthesis: a response whose only candidate holds the given
  parts, and a service that gives the same answer to every call and counts the calls.\<close>

definition oneCandidate :: "Part list \<Rightarrow> ImageResponse" where
  "oneCandidate ps = \<lparr>candidates = Some [\<lparr>content = Some \<lparr>parts = Some ps\<rparr>\<rparr>]\<rparr>"

definition imageService :: "JsError + ImageResponse \<Rightarrow> unit \<Rightarrow> string \<Rightarrow> (ImageResponse, nat) operation" where
  "imageService answer ai prompt calls = (answer, calls + 1)"

section \<open>Audio container (pcmToWav)\<close>

text \<open>
  An \<^verbatim>\<open>ArrayBuffer\<close> is a list of bytes. The \<^verbatim>\<open>DataView\<close> setters write into it at a byte
  offset and throw a \<^verbatim>\<open>RangeError\<close> when the write would leave the buffer: \<open>None\<close> here.
  The value written is converted to the field's width first (\<^verbatim>\<open>ToUint8\<close>, \<^verbatim>\<open>ToUint16\<close>,
  \<^verbatim>\<open>ToUint32\<close>: the integer modulo \<open>2^8\<close>, \<open>2^16\<close>, \<open>2^32\<close>). Numbers are integers here.
\<close>

type_synonym byte = "8 word"

definition ToUint :: "nat \<Rightarrow> int \<Rightarrow> nat" where
  "ToUint bits v = nat (v mod 2 ^ bits)"

text \<open>The \<open>n\<close> bytes of a value, least significant first.\<close>

fun le_bytes :: "nat \<Rightarrow> nat \<Rightarrow> byte list" where
  "le_bytes 0 v = []"
| "le_bytes (Suc n) v = of_nat (v mod 256) # le_bytes n (v div 256)"

text \<open>Writing the bytes \<open>bs\<close> over the buffer from an offset on, inside its bounds, as
  every setter of a view and \<^verbatim>\<open>TypedArray.prototype.set\<close> do.\<close>

definition overwrite :: "byte list \<Rightarrow> nat \<Rightarrow> byte list \<Rightarrow> byte list" where
  "overwrite view byteOffset bs =
     take byteOffset view @ bs @ drop (byteOffset + length bs) view"

definition setBytes :: "byte list \<Rightarrow> nat \<Rightarrow> byte list \<Rightarrow> byte list option" where
  "setBytes view byteOffset bs =
     (if byteOffset + length bs \<le> length view
      then Some (overwrite view byteOffset bs)
      else None)"

definition setUint8 :: "byte list \<Rightarrow> nat \<Rightarrow> int \<Rightarrow> byte list option" where
  "setUint8 view byteOffset v = setBytes view byteOffset (le_bytes 1 (ToUint 8 v))"

definition setUint16 :: "byte list \<Rightarrow> nat \<Rightarrow> int \<Rightarrow> bool \<Rightarrow> byte list option" where
  "setUint16 view byteOffset v littleEndian =
     setBytes view byteOffset
       (if littleEndian then le_bytes 2 (ToUint 16 v) else rev (le_bytes 2 (ToUint 16 v)))"

definition setUint32 :: "byte list \<Rightarrow> nat \<Rightarrow> int \<Rightarrow> bool \<Rightarrow> byte list option" where
  "setUint32 view byteOffset v littleEndian =
     setBytes view byteOffset
       (if littleEndian then le_bytes 4 (ToUint 32 v) else rev (le_bytes 4 (ToUint 32 v)))"

text \<open>\<^verbatim>\<open>writeString\<close>: the loop over the characters, writing \<^verbatim>\<open>charCodeAt(i)\<close> at
  \<^verbatim>\<open>offset + i\<close>.\<close>

fun writeString :: "byte list \<Rightarrow> nat \<Rightarrow> string \<Rightarrow> byte list option" where
  "writeString view byteOffset [] = Some view"
| "writeString view byteOffset (c # cs) =
     do { view' \<leftarrow> setUint8 view byteOffset (of_char c);
          writeString view' (byteOffset + 1) cs }"

text \<open>A \<^verbatim>\<open>Blob\<close>: its bytes and its MIME type.\<close>

record Blob =
  blob_bytes :: "byte list"
  blob_type :: string

text \<open>
  \<^verbatim>\<open>pcmToWav\<close>. The buffer of \<open>44 + dataSize\<close> zero bytes is written through the view;
  \<^verbatim>\<open>new Uint8Array(buffer, 44).set(pcmData)\<close> copies the samples behind the header.
\<close>

definition pcmToWav :: "byte list \<Rightarrow> int \<Rightarrow> Blob option" where
  "pcmToWav pcmData sampleRate =
     (let numChannels = 1;
          bitsPerSample = 16;
          byteRate = (sampleRate * numChannels * bitsPerSample) div 8;
          blockAlign = (numChannels * bitsPerSample) div 8;
          dataSize = length pcmData;
          buffer = replicate (44 + dataSize) (0 :: byte)
      in do {
        view \<leftarrow> writeString buffer 0 ''RIFF'';
        view \<leftarrow> setUint32 view 4 (36 + int dataSize) True;
        view \<leftarrow> writeString view 8 ''WAVE'';
        view \<leftarrow> writeString view 12 ''fmt '';
        view \<leftarrow> setUint32 view 16 16 True;
        view \<leftarrow> setUint16 view 20 1 True;
        view \<leftarrow> setUint16 view 22 numChannels True;
        view \<leftarrow> setUint32 view 24 sampleRate True;
        view \<leftarrow> setUint32 view 28 byteRate True;
        view \<leftarrow> setUint16 view 32 blockAlign True;
        view \<leftarrow> setUint16 view 34 bitsPerSample True;
        view \<leftarrow> writeString view 36 ''data'';
        view \<leftarrow> setUint32 view 40 (int dataSize) True;
        buffer' \<leftarrow> setBytes view 44 pcmData;
        Some \<lparr>blob_bytes = buffer', blob_type = ''audio/wav''\<rparr>
      })"

text \<open>
  Reading the container back. \<open>getUint\<close> reads \<open>n\<close> bytes at an offset as a little-endian
  number. \<open>readWav\<close> is a reader of the canonical 44-byte RIFF/WAVE layout, written here
  to state the round trip (the repository has no decoder of its own: the browser's is
  used): it checks the four tags, reads the sample rate at offset 24 and the size of the
  data chunk at offset 40, and returns the rate with that many bytes from offset 44.
\<close>

fun le_value :: "byte list \<Rightarrow> nat" where
  "le_value [] = 0"
| "le_value (b # bs) = unat b + 256 * le_value bs"

definition getUint :: "nat \<Rightarrow> byte list \<Rightarrow> nat \<Rightarrow> nat" where
  "getUint n bytes byteOffset = le_value (take n (drop byteOffset bytes))"

definition charCodes :: "string \<Rightarrow> byte list" where
  "charCodes s = map (\<lambda>c. of_nat (of_char c)) s"

definition tagAt :: "byte list \<Rightarrow> nat \<Rightarrow> string \<Rightarrow> bool" where
  "tagAt bytes byteOffset tag = (take (length tag) (drop byteOffset bytes) = charCodes tag)"

definition readWav :: "byte list \<Rightarrow> (nat \<times> byte list) option" where
  "readWav bytes =
     (if 44 \<le> length bytes \<and> tagAt bytes 0 ''RIFF'' \<and> tagAt bytes 8 ''WAVE'' \<and>
         tagAt bytes 12 ''fmt '' \<and> tagAt bytes 36 ''data'' \<and>
         44 + getUint 4 bytes 40 \<le> length bytes
      then Some (getUint 4 bytes 24, take (getUint 4 bytes 40) (drop 44 bytes))
      else None)"

text \<open>The 44 bytes of the header, field by field, for a data size and a sample rate.\<close>

definition wavHeader :: "nat \<Rightarrow> int \<Rightarrow> byte list" where
  "wavHeader dataSize sampleRate =
     charCodes ''RIFF'' @ le_bytes 4 (ToUint 32 (36 + int dataSize)) @
     charCodes ''WAVE'' @ charCodes ''fmt '' @
     le_bytes 4 (ToUint 32 16) @ le_bytes 2 (ToUint 16 1) @ le_bytes 2 (ToUint 16 1) @
     le_bytes 4 (ToUint 32 sampleRate) @ le_bytes 4 (ToUint 32 (2 * sampleRate)) @
     le_bytes 2 (ToUint 16 2) @ le_bytes 2 (ToUint 16 16) @
     charCodes ''data'' @ le_bytes 4 (ToUint 32 (int dataSize))"

section \<open>Transcript highlighting (LessonPlayer)\<close>

text \<open>\<^verbatim>\<open>str.split('\n')\<close>: the pieces between the separators, one more than there are
  separators; the empty string gives one empty piece.\<close>

fun split_char :: "char \<Rightarrow> string \<Rightarrow> string list" where
  "split_char sep [] = [[]]"
| "split_char sep (c # cs) =
     (if c = sep then [] # split_char sep cs
      else (case split_char sep cs of
              [] \<Rightarrow> [[c]]
            | piece # pieces \<Rightarrow> (c # piece) # pieces))"

text \<open>\<^verbatim>\<open>text.split(/\s+/)\<close>: the pieces between maximal runs of white space; a run at the
  start or at the end leaves an empty piece there.\<close>

function split_whitespace :: "string \<Rightarrow> string list" where
  "split_whitespace [] = [[]]"
| "split_whitespace (c # cs) =
     (if isWhiteSpace c then [] # split_whitespace (dropWhile isWhiteSpace cs)
      else (case split_whitespace cs of
              [] \<Rightarrow> [[c]]
            | piece # pieces \<Rightarrow> (c # piece) # pieces))"
  by pat_completeness auto
termination
  by (relation "measure length") (auto simp: less_Suc_eq_le length_dropWhile_le)

text \<open>\<^verbatim>\<open>String.prototype.trim\<close>\<close>

definition trim :: "string \<Rightarrow> string" where
  "trim s = rev (dropWhile isWhiteSpace (rev (dropWhile isWhiteSpace s)))"

text \<open>
  The memoised \<^verbatim>\<open>transcriptData\<close>: the paragraphs with their words and their range of
  global word indices, and the total number of words. \<^verbatim>\<open>wordCountAccumulator\<close> is
  threaded through the \<^verbatim>\<open>map\<close> over the paragraphs. The fields \<^verbatim>\<open>text\<close>, \<^verbatim>\<open>start\<close> and
  \<^verbatim>\<open>end\<close> carry the prefix \<open>p_\<close>.
\<close>

record Paragraph =
  p_text :: string
  p_words :: "string list"
  p_start :: nat
  p_end :: nat

record TranscriptData =
  paragraphs :: "Paragraph list"
  totalWords :: nat

fun mapParagraphs :: "nat \<Rightarrow> string list \<Rightarrow> Paragraph list \<times> nat" where
  "mapParagraphs wordCountAccumulator [] = ([], wordCountAccumulator)"
| "mapParagraphs wordCountAccumulator (txt # rest) =
     (let ws = filter (\<lambda>w. length w > 0) (split_whitespace txt);
          start = wordCountAccumulator;
          wordCountAccumulator' = wordCountAccumulator + length ws;
          paragraph = \<lparr>p_text = txt, p_words = ws, p_start = start,
                       p_end = wordCountAccumulator'\<rparr>;
          (ps, total) = mapParagraphs wordCountAccumulator' rest
      in (paragraph # ps, total))"

text \<open>The argument is \<^verbatim>\<open>state.content?.script\<close>: \<open>None\<close> when there is no content. The
  empty script is falsy as well.\<close>

definition transcriptData :: "string option \<Rightarrow> TranscriptData" where
  "transcriptData script =
     (case script of
        None \<Rightarrow> \<lparr>paragraphs = [], totalWords = 0\<rparr>
      | Some s \<Rightarrow>
          if s = [] then \<lparr>paragraphs = [], totalWords = 0\<rparr>
          else
            (let rawParagraphs = filter (\<lambda>p. trim p \<noteq> []) (split_char CHR 0x0A s);
                 (ps, wordCountAccumulator) = mapParagraphs 0 rawParagraphs
             in \<lparr>paragraphs = ps, totalWords = wordCountAccumulator\<rparr>))"

text \<open>
  \<^verbatim>\<open>Math.floor((progress / 100) * transcriptData.totalWords)\<close>, with \<^verbatim>\<open>progress\<close> the
  playback position in percent. JavaScript numbers are binary64 floating-point values:
  they are modelled as the real numbers they denote, and every arithmetic operation
  yields the exact result rounded to a binary64 value. The rounding is the parameter
  \<open>fl\<close>; with \<open>fl = (\<lambda>x. x)\<close> the arithmetic is exact. \<^verbatim>\<open>Math.floor\<close> and the conversion
  of the word count are exact.
\<close>

definition currentWordIndex :: "(real \<Rightarrow> real) \<Rightarrow> real \<Rightarrow> nat \<Rightarrow> int" where
  "currentWordIndex fl progress wordCount = \<lfloor>fl (fl (progress / 100) * real wordCount)\<rfloor>"

text \<open>The state a word at a global index is shown in.\<close>

datatype WordState = Read | Active | Unread

definition wordState :: "int \<Rightarrow> nat \<Rightarrow> WordState" where
  "wordState current globalIdx =
     (if int globalIdx < current then Read
      else if int globalIdx = current then Active
      else Unread)"

text \<open>
  Binary64 rounding itself: round to nearest, ties to even, with 53 significant bits. For
  \<open>x \<noteq> 0\<close> the exponent is \<open>\<lfloor>log 2 |x|\<rfloor>\<close>, but not below \<open>-1022\<close> (the subnormal range),
  the unit in the last place is \<open>2^(exponent - 52)\<close>, and the result is the multiple of
  that unit nearest to \<open>x\<close>. Overflow to infinity, beyond \<open>2^1024\<close>, is not modelled.
\<close>

definition round_half_even :: "real \<Rightarrow> int" where
  "round_half_even y =
     (let n = \<lfloor>y\<rfloor>; d = y - of_int n
      in if d < 1 / 2 then n else if 1 / 2 < d then n + 1 else if even n then n else n + 1)"

definition exponent64 :: "real \<Rightarrow> int" where
  "exponent64 x = max \<lfloor>log 2 \<bar>x\<bar>\<rfloor> (- 1022)"

definition ulp64 :: "real \<Rightarrow> real" where
  "ulp64 x = 2 powr (of_int (exponent64 x) - 52)"

definition binary64 :: "real \<Rightarrow> real" where
  "binary64 x =
     (if x = 0 then 0
      else sgn x * of_int (round_half_even (\<bar>x\<bar> / ulp64 x)) * ulp64 x)"

text \<open>
  The number of words of a script as the description of the highlighting has it: the
  script is cut at line breaks and white space, so a word is a maximal run of characters
  that are not white space. \<open>word_starts inWord s\<close> counts the words that begin in \<open>s\<close>,
  \<open>inWord\<close> telling whether the character before \<open>s\<close> belongs to a word.
\<close>

fun word_starts :: "bool \<Rightarrow> string \<Rightarrow> nat" where
  "word_starts inWord [] = 0"
| "word_starts inWord (c # cs) =
     (if isWhiteSpace c then word_starts False cs
      else (if inWord then 0 else 1) + word_starts True cs)"

definition countWords :: "string \<Rightarrow> nat" where
  "countWords s = word_starts False s"

section \<open>Quiz (QuizView)\<close>

record QuizQuestion =
  q_id :: int
  question :: string
  options :: "string list"
  correctOptionIndex :: int
  explanation :: string

text \<open>The component's state variables.\<close>

record QuizView =
  currentIndex :: nat
  selectedOption :: "nat option"
  isAnswered :: bool
  score :: nat
  showResult :: bool

definition initialQuizView :: QuizView where
  "initialQuizView =
     \<lparr>currentIndex = 0, selectedOption = None, isAnswered = False, score = 0,
      showResult = False\<rparr>"

text \<open>
  \<^verbatim>\<open>handleOptionClick\<close>. \<^verbatim>\<open>currentQuestion\<close> is \<^verbatim>\<open>questions[currentIndex]\<close>; were it undefined,
  reading its \<^verbatim>\<open>correctOptionIndex\<close> would throw a \<^verbatim>\<open>TypeError\<close>: \<open>None\<close> here.
\<close>

definition handleOptionClick :: "QuizQuestion list \<Rightarrow> nat \<Rightarrow> QuizView \<Rightarrow> QuizView option" where
  "handleOptionClick questions idx st =
     (if isAnswered st then Some st
      else (case js_index questions (int (currentIndex st)) of
              None \<Rightarrow> None
            | Some currentQuestion \<Rightarrow>
                Some (st\<lparr>selectedOption := Some idx,
                         isAnswered := True,
                         score := (if int idx = correctOptionIndex currentQuestion
                                   then score st + 1 else score st)\<rparr>)))"

definition handleNext :: "QuizQuestion list \<Rightarrow> QuizView \<Rightarrow> QuizView" where
  "handleNext questions st =
     (if int (currentIndex st) < int (length questions) - 1
      then st\<lparr>currentIndex := currentIndex st + 1, selectedOption := None, isAnswered := False\<rparr>
      else st\<lparr>showResult := True\<rparr>)"

text \<open>
  \<^verbatim>\<open>score >= Math.ceil(questions.length * 0.6)\<close>. The literal \<^verbatim>\<open>0.6\<close> denotes the binary64
  value nearest to \<open>6/10\<close>, which is \<open>5404319552844595 / 2^53\<close>; the product is rounded
  to binary64 (\<open>fl\<close>, as for the transcript); \<^verbatim>\<open>Math.ceil\<close> and the comparison are exact.
\<close>

definition literal_0_6 :: real where
  "literal_0_6 = 5404319552844595 / 2 ^ 53"

definition passed :: "(real \<Rightarrow> real) \<Rightarrow> QuizQuestion list \<Rightarrow> QuizView \<Rightarrow> bool" where
  "passed fl questions st =
     (int (score st) \<ge> \<lceil>fl (real (length questions) * literal_0_6)\<rceil>)"

text \<open>
  The component shows one question at a time; the button for the next question appears
  only once the question is answered, and the result (with the button that calls
  \<^verbatim>\<open>onFinish(passed)\<close>) after the last one. A user who gives the answers \<open>answers\<close>, one per
  question, therefore drives the component through \<^verbatim>\<open>handleOptionClick\<close> and \<^verbatim>\<open>handleNext\<close>
  in turn; \<open>correctAnswers\<close> counts the answers that hit the question's correct option.
\<close>

fun takeQuiz :: "QuizQuestion list \<Rightarrow> nat list \<Rightarrow> QuizView \<Rightarrow> QuizView option" where
  "takeQuiz questions [] st = Some st"
| "takeQuiz questions (a # answers) st =
     (case handleOptionClick questions a st of
        None \<Rightarrow> None
      | Some st' \<Rightarrow> takeQuiz questions answers (handleNext questions st'))"

definition correctAnswers :: "QuizQuestion list \<Rightarrow> nat list \<Rightarrow> nat" where
  "correctAnswers questions answers =
     length (filter (\<lambda>(q, a). int a = correctOptionIndex q) (zip questions answers))"

text \<open>The value handed to \<^verbatim>\<open>onFinish\<close>, that is to \<^verbatim>\<open>handleQuizFinish\<close>, when the user has
  answered every question and presses the button of the result screen; \<open>None\<close> if the
  result screen is not reached.\<close>

definition quizOutcome :: "(real \<Rightarrow> real) \<Rightarrow> QuizQuestion list \<Rightarrow> nat list \<Rightarrow> bool option" where
  "quizOutcome fl questions answers =
     (case takeQuiz questions answers initialQuizView of
        None \<Rightarrow> None
      | Some st \<Rightarrow> if showResult st then Some (passed fl questions st) else None)"

section \<open>Properties of the progression update\<close>

lemma allTopics_update:
  "allTopics (cs\<lparr>chapters := map (\<lambda>ch. ch\<lparr>topics := map f (topics ch)\<rparr>) (chapters cs)\<rparr>)
     = map f (allTopics cs)"
  by (simp add: allTopics_def map_concat o_def)

lemma chapters_frame:
  "map ch_id (map (\<lambda>ch. ch\<lparr>topics := map f (topics ch)\<rparr>) chs) = map ch_id chs"
  "map ch_title (map (\<lambda>ch. ch\<lparr>topics := map f (topics ch)\<rparr>) chs) = map ch_title chs"
  "map (\<lambda>ch. length (topics ch)) (map (\<lambda>ch. ch\<lparr>topics := map f (topics ch)\<rparr>) chs)
     = map (\<lambda>ch. length (topics ch)) chs"
  by (simp_all add: o_def)

lemma findIndex_none: "(\<forall>x\<in>set xs. \<not> p x) \<Longrightarrow> findIndex p xs = - 1"
  by (induction xs) auto

lemma findIndex_first:
  "i < length xs \<Longrightarrow> p (xs ! i) \<Longrightarrow> (\<forall>j<i. \<not> p (xs ! j)) \<Longrightarrow> findIndex p xs = int i"
proof (induction xs arbitrary: i)
  case Nil
  then show ?case by simp
next
  case (Cons x xs)
  show ?case
  proof (cases i)
    case 0
    with Cons.prems show ?thesis by simp
  next
    case (Suc k)
    from Cons.prems Suc have "\<not> p x" by auto
    moreover from Cons.prems Suc have "findIndex p xs = int k"
      by (intro Cons.IH) auto
    ultimately show ?thesis using Suc by (simp add: Let_def)
  qed
qed

lemma findIndex_distinct:
  assumes "distinct (map f xs)" and "i < length xs"
  shows "findIndex (\<lambda>x. f x = f (xs ! i)) xs = int i"
proof (rule findIndex_first)
  show "\<forall>j<i. f (xs ! j) \<noteq> f (xs ! i)"
  proof (intro allI impI)
    fix j assume "j < i"
    with assms have "map f xs ! j \<noteq> map f xs ! i"
      by (simp add: nth_eq_iff_index_eq del: nth_map)
    with \<open>j < i\<close> assms show "f (xs ! j) \<noteq> f (xs ! i)" by simp
  qed
qed (use assms in simp_all)

lemma handleQuizFinish_passed:
  assumes "courseStructure s = Some cs" and "currentTopic s = Some cur"
  shows "handleQuizFinish True s =
     s\<lparr>courseStructure := Some (cs\<lparr>chapters :=
           map (\<lambda>ch. ch\<lparr>topics := map (updateTopic cur
               (js_index (allTopics cs) (findIndex (\<lambda>t. t_id t = t_id cur) (allTopics cs) + 1)))
                 (topics ch)\<rparr>)
             (chapters cs)\<rparr>),
       appState := DASHBOARD\<rparr>"
  using assms by (simp add: handleQuizFinish_def Let_def)

text \<open>The update never touches a topic's identifier, so unique identifiers stay unique.\<close>

lemma updateTopic_id: "t_id (updateTopic cur n t) = t_id t"
  by (simp add: updateTopic_def)

lemma handleQuizFinish_keeps_ids:
  assumes "courseStructure s = Some cs"
  shows "\<exists>cs'. courseStructure (handleQuizFinish pass s) = Some cs' \<and>
           map t_id (allTopics cs') = map t_id (allTopics cs)"
proof (cases "pass \<and> currentTopic s \<noteq> None")
  case True
  then obtain cur where "currentTopic s = Some cur" by auto
  with True assms show ?thesis
    by (simp add: handleQuizFinish_passed allTopics_update o_def updateTopic_id)
next
  case False
  with assms show ?thesis
    by (auto simp: handleQuizFinish_def split: option.splits)
qed

text \<open>
  C7. When the quiz was not passed, \<^verbatim>\<open>handleQuizFinish\<close> leaves the course outline, and
  with it every topic's completed and locked flag, exactly as it was (it only switches the
  screen back to the lesson), whatever the current topic is.
\<close>

theorem handleQuizFinish_failed_keeps_outline:
  "courseStructure (handleQuizFinish False s) = courseStructure s"
  by (simp add: handleQuizFinish_def split: option.splits)

text \<open>
  C2. In an outline whose topic identifiers are unique (the invariant of the data model,
  established by structure analysis and kept by \<^verbatim>\<open>handleQuizFinish\<close>), passing the quiz of
  the topic at position \<open>i\<close> of the flattened chapter-then-topic order sets that topic's
  completed flag, clears the locked flag of the topic at position \<open>i + 1\<close> when there is
  one, and changes nothing else: every other topic, the chapters' identifiers, titles and
  sizes, and the course's title and summary are as before. For the last topic no position
  \<open>i + 1\<close> exists, so only its own completed flag changes.
\<close>

theorem handleQuizFinish_passed_advances:
  assumes cs: "courseStructure s = Some cs" and cur: "currentTopic s = Some cur"
    and dist: "distinct (map t_id (allTopics cs))"
    and i: "i < length (allTopics cs)" and tid: "t_id (allTopics cs ! i) = t_id cur"
  shows "\<exists>cs'. courseStructure (handleQuizFinish True s) = Some cs' \<and>
           cs_title cs' = cs_title cs \<and> summary cs' = summary cs \<and>
           map ch_id (chapters cs') = map ch_id (chapters cs) \<and>
           map ch_title (chapters cs') = map ch_title (chapters cs) \<and>
           map (\<lambda>ch. length (topics ch)) (chapters cs') =
             map (\<lambda>ch. length (topics ch)) (chapters cs) \<and>
           length (allTopics cs') = length (allTopics cs) \<and>
           (\<forall>j<length (allTopics cs). allTopics cs' ! j =
              (if j = i then (allTopics cs ! j)\<lparr>isCompleted := True\<rparr>
               else if j = i + 1 then (allTopics cs ! j)\<lparr>isLocked := False\<rparr>
               else allTopics cs ! j))"
proof -
  let ?all = "allTopics cs"
  let ?next = "js_index ?all (findIndex (\<lambda>t. t_id t = t_id cur) ?all + 1)"
  let ?cs' = "cs\<lparr>chapters :=
    map (\<lambda>ch. ch\<lparr>topics := map (updateTopic cur ?next) (topics ch)\<rparr>) (chapters cs)\<rparr>"
  have idx: "findIndex (\<lambda>t. t_id t = t_id cur) ?all = int i"
    using findIndex_distinct [OF dist i] tid by simp
  have nxt: "?next = (if i + 1 < length ?all then Some (?all ! (i + 1)) else None)"
    by (simp add: idx js_index_def nat_add_distrib)
  have ids: "t_id (?all ! j) = t_id (?all ! k) \<longleftrightarrow> j = k"
    if "j < length ?all" "k < length ?all" for j k
    using dist that nth_eq_iff_index_eq [of "map t_id ?all" j k] by simp
  have res: "courseStructure (handleQuizFinish True s) = Some ?cs'"
    by (simp add: handleQuizFinish_passed [OF cs cur])
  have flat: "allTopics ?cs' = map (updateTopic cur ?next) ?all"
    by (rule allTopics_update)
  have pt: "allTopics ?cs' ! j =
              (if j = i then (?all ! j)\<lparr>isCompleted := True\<rparr>
               else if j = i + 1 then (?all ! j)\<lparr>isLocked := False\<rparr>
               else ?all ! j)" if j: "j < length ?all" for j
  proof -
    have "t_id (?all ! j) = t_id cur \<longleftrightarrow> j = i"
      using ids [OF j i] tid by simp
    moreover have "t_id (?all ! j) = t_id (?all ! (i + 1)) \<longleftrightarrow> j = i + 1"
      if "i + 1 < length ?all"
      using ids [OF j that] .
    ultimately show ?thesis
      unfolding flat using j by (simp add: nxt updateTopic_def)
  qed
  show ?thesis
    apply (rule exI [of _ ?cs'])
    using pt by (simp add: res chapters_frame flat)
qed

lemma example_allTopics:
  "allTopics example_course =
     [\<lparr>t_id = ''topic-0'', t_title = ''A'', description = ''a'',
              isCompleted = True, isLocked = False\<rparr>,
             \<lparr>t_id = ''topic-1'', t_title = ''B'', description = ''b'',
              isCompleted = False, isLocked = False\<rparr>,
      \<lparr>t_id = ''topic-2'', t_title = ''C'', description = ''c'',
              isCompleted = False, isLocked = True\<rparr>]"
  by (simp add: allTopics_def example_course_def)

theorem handleQuizFinish_passed_advances_witness:
  "courseStructure (example_app ''topic-1'') = Some example_course \<and>
   distinct (map t_id (allTopics example_course)) \<and>
   (1::nat) < length (allTopics example_course) \<and>
   t_id (allTopics example_course ! 1) = ''topic-1'' \<and>
   (\<exists>cs'. courseStructure (handleQuizFinish True (example_app ''topic-1'')) = Some cs' \<and>
      map isCompleted (allTopics cs') = [True, True, False] \<and>
      map isLocked (allTopics cs') = [False, False, False] \<and>
      map t_id (allTopics cs') = [''topic-0'', ''topic-1'', ''topic-2''])"
proof -
  let ?s = "example_app ''topic-1''"
  let ?cur = "\<lparr>t_id = ''topic-1'', t_title = ''B'', description = ''b'',
                           isCompleted = False, isLocked = False\<rparr>"
  have h1: "courseStructure ?s = Some example_course"
    and h2: "currentTopic ?s = Some ?cur"
    by (simp_all add: example_app_def)
  have h3: "distinct (map t_id (allTopics example_course))"
    by (simp add: example_allTopics)
  have h4: "(1::nat) < length (allTopics example_course)"
    by (simp add: example_allTopics)
  have h5: "t_id (allTopics example_course ! 1) = t_id ?cur"
    by (simp add: example_allTopics)
  from handleQuizFinish_passed_advances [OF h1 h2 h3 h4 h5]
  obtain cs' where res: "courseStructure (handleQuizFinish True ?s) = Some cs'"
    and len: "length (allTopics cs') = length (allTopics example_course)"
    and pt: "\<forall>j<length (allTopics example_course). allTopics cs' ! j =
              (if j = 1 then (allTopics example_course ! j)\<lparr>isCompleted := True\<rparr>
               else if j = 1 + 1 then (allTopics example_course ! j)\<lparr>isLocked := False\<rparr>
               else allTopics example_course ! j)"
    by blast
  from len have len3: "length (allTopics cs') = 3" by (simp add: example_allTopics)
  from pt have "allTopics cs' ! 0 = allTopics example_course ! 0"
    and "allTopics cs' ! 1 = (allTopics example_course ! 1)\<lparr>isCompleted := True\<rparr>"
    and "allTopics cs' ! 2 = (allTopics example_course ! 2)\<lparr>isLocked := False\<rparr>"
    by (simp_all add: example_allTopics)
  with len3 have "allTopics cs' =
      [allTopics example_course ! 0, (allTopics example_course ! 1)\<lparr>isCompleted := True\<rparr>,
       (allTopics example_course ! 2)\<lparr>isLocked := False\<rparr>]"
    by (simp add: list_eq_iff_nth_eq less_Suc_eq numeral_3_eq_3 numeral_2_eq_2)
  then have "map isCompleted (allTopics cs') = [True, True, False]"
    and "map isLocked (allTopics cs') = [False, False, False]"
    and "map t_id (allTopics cs') = [''topic-0'', ''topic-1'', ''topic-2'']"
    by (simp_all add: example_allTopics)
  with res h1 h3 h4 h5 show ?thesis by auto
qed

text \<open>
  C10. When the current topic's identifier occurs nowhere in the outline, passing the quiz
  completes no topic, yet the first topic of the flattened order loses its locked flag:
  \<^verbatim>\<open>findIndex\<close> answers \<open>-1\<close>, so the topic at index \<open>0\<close> is taken as the next one. The only
  other topics touched are those sharing the first topic's identifier (none when
  identifiers are unique); an outline without topics is left as it is.
\<close>

theorem handleQuizFinish_unknown_topic:
  assumes cs: "courseStructure s = Some cs" and cur: "currentTopic s = Some cur"
    and unknown: "t_id cur \<notin> t_id ` set (allTopics cs)"
  shows "\<exists>cs'. courseStructure (handleQuizFinish True s) = Some cs' \<and>
           map isCompleted (allTopics cs') = map isCompleted (allTopics cs) \<and>
           allTopics cs' =
             (case allTopics cs of
                [] \<Rightarrow> []
              | t # ts \<Rightarrow> t\<lparr>isLocked := False\<rparr> #
                  map (\<lambda>u. if t_id u = t_id t then u\<lparr>isLocked := False\<rparr> else u) ts)"
proof -
  let ?all = "allTopics cs"
  let ?next = "js_index ?all (findIndex (\<lambda>t. t_id t = t_id cur) ?all + 1)"
  let ?cs' = "cs\<lparr>chapters :=
    map (\<lambda>ch. ch\<lparr>topics := map (updateTopic cur ?next) (topics ch)\<rparr>) (chapters cs)\<rparr>"
  have idx: "findIndex (\<lambda>t. t_id t = t_id cur) ?all = - 1"
  proof (rule findIndex_none, rule ballI)
    fix x assume "x \<in> set ?all"
    then have "t_id x \<in> t_id ` set ?all" by (rule imageI)
    with unknown show "t_id x \<noteq> t_id cur" by metis
  qed
  have nxt: "?next = (case ?all of [] \<Rightarrow> None | t # ts \<Rightarrow> Some t)"
    by (simp add: idx js_index_def split: list.split)
  have res: "courseStructure (handleQuizFinish True s) = Some ?cs'"
    by (simp add: handleQuizFinish_passed [OF cs cur])
  have flat: "allTopics ?cs' = map (updateTopic cur ?next) ?all"
    by (rule allTopics_update)
  have upd: "updateTopic cur n u = (case n of None \<Rightarrow> u
               | Some t \<Rightarrow> if t_id u = t_id t then u\<lparr>isLocked := False\<rparr> else u)"
    if "u \<in> set ?all" for u n
  proof -
    from that have "t_id u \<in> t_id ` set ?all" by (rule imageI)
    with unknown have "t_id u \<noteq> t_id cur" by metis
    then show ?thesis by (simp add: updateTopic_def split: option.split)
  qed
  have "map (updateTopic cur ?next) ?all =
          (case ?all of
                [] \<Rightarrow> []
              | t # ts \<Rightarrow> t\<lparr>isLocked := False\<rparr> #
                  map (\<lambda>u. if t_id u = t_id t then u\<lparr>isLocked := False\<rparr> else u) ts)"
    unfolding nxt using upd by (cases ?all) (simp_all)
  moreover have "map isCompleted (map (updateTopic cur ?next) ?all) = map isCompleted ?all"
    using upd by (auto split: option.split)
  ultimately show ?thesis
    unfolding flat [symmetric] using res by blast
qed

theorem handleQuizFinish_unknown_topic_witness:
  "courseStructure stale_app = Some locked_course \<and>
   ''topic-9'' \<notin> t_id ` set (allTopics locked_course) \<and>
   map isLocked (allTopics locked_course) = [True, True] \<and>
   (\<exists>cs'. courseStructure (handleQuizFinish True stale_app) = Some cs' \<and>
      map isCompleted (allTopics cs') = [False, False] \<and>
      map isLocked (allTopics cs') = [False, True])"
proof -
  let ?cur = "\<lparr>t_id = ''topic-9'', t_title = ''Z'', description = ''z'',
               isCompleted = False, isLocked = False\<rparr>"
  have all: "allTopics locked_course =
     [\<lparr>t_id = ''topic-0'', t_title = ''A'', description = ''a'',
       isCompleted = False, isLocked = True\<rparr>,
      \<lparr>t_id = ''topic-1'', t_title = ''B'', description = ''b'',
       isCompleted = False, isLocked = True\<rparr>]"
    by (simp add: allTopics_def locked_course_def)
  have h1: "courseStructure stale_app = Some locked_course"
    and h2: "currentTopic stale_app = Some ?cur"
    by (simp_all add: stale_app_def)
  have h3: "t_id ?cur \<notin> t_id ` set (allTopics locked_course)"
    by (simp add: all)
  from handleQuizFinish_unknown_topic [OF h1 h2 h3] h1 h3
  show ?thesis by (auto simp: all)
qed

section \<open>Properties of the retry wrapper\<close>

declare withRetry.simps [simp del]

lemma withRetry_success:
  "operation w = (Inr v, w') \<Longrightarrow> withRetry operation retries delay w = ((Inr v, w'), [])"
  by (subst withRetry.simps) simp

lemma withRetry_fatal:
  "operation w = (Inl e, w') \<Longrightarrow> \<not> (isNetworkError e \<or> isServerError e) \<Longrightarrow>
   withRetry operation retries delay w = ((Inl e, w'), [])"
  by (subst withRetry.simps) simp

lemma withRetry_exhausted:
  "operation w = (Inl e, w') \<Longrightarrow> retries \<le> 0 \<Longrightarrow>
   withRetry operation retries delay w = ((Inl e, w'), [])"
  by (subst withRetry.simps) simp

lemma withRetry_again:
  "operation w = (Inl e, w') \<Longrightarrow> isNetworkError e \<or> isServerError e \<Longrightarrow> 0 < retries \<Longrightarrow>
   withRetry operation retries delay w =
     (fst (withRetry operation (retries - 1) (delay * 2) w'),
      delay # snd (withRetry operation (retries - 1) (delay * 2) w'))"
  by (subst withRetry.simps) (simp add: case_prod_beta)

text \<open>The number of retries never exceeds the budget, and every thrown value that comes
  out of the wrapper is one the operation threw.\<close>

lemma withRetry_bounded: "int (length (snd (withRetry operation retries delay w))) \<le> max 0 retries"
proof (induction operation retries delay w rule: withRetry.induct)
  case (1 operation retries delay w)
  obtain r w' where op: "operation w = (r, w')" by (cases "operation w")
  show ?case
  proof (cases r)
    case (Inr v)
    with op show ?thesis by (simp add: withRetry_success)
  next
    case (Inl e)
    show ?thesis
    proof (cases "retries > 0 \<and> (isNetworkError e \<or> isServerError e)")
      case True
      with op Inl have "int (length (snd (withRetry operation (retries - 1) (delay * 2) w')))
          \<le> max 0 (retries - 1)"
        by (intro "1.IH") auto
      with True op Inl show ?thesis by (simp add: withRetry_again)
    next
      case False
      with op Inl have "withRetry operation retries delay w = ((Inl e, w'), [])"
        by (subst withRetry.simps) auto
      then show ?thesis by simp
    qed
  qed
qed

lemma scripted_Cons: "scripted (x # xs) = (x, xs)"
  by (simp add: scripted_def)

text \<open>
  C4. With the default budget (2 retries, first delay 1000 ms), where a transient error is
  one whose message contains \<^verbatim>\<open>xhr\<close>, \<^verbatim>\<open>fetch\<close> or \<^verbatim>\<open>NetworkError\<close> or whose status is exactly
  500 or 503: an operation that fails twice with a transient error and then succeeds makes
  \<^verbatim>\<open>withRetry\<close> return the success value after exactly two retries, with delays 1000 and
  2000; an operation that fails with a non-transient error has that very error propagated
  with no retry; and when three invocations fail with transient errors the budget is
  exhausted and the last error is propagated unchanged, after delays 1000 and 2000.
\<close>

theorem withRetry_default_budget:
  fixes operation :: "('a, 'w) operation"
  shows
  "(operation w0 = (Inl e1, w1) \<and> (isNetworkError e1 \<or> isServerError e1) \<and>
    operation w1 = (Inl e2, w2) \<and> (isNetworkError e2 \<or> isServerError e2) \<and>
    operation w2 = (Inr v, w3)
      \<longrightarrow> withRetry operation 2 1000 w0 = ((Inr v, w3), [1000, 2000])) \<and>
   (operation w0 = (Inl e1, w1) \<and> \<not> (isNetworkError e1 \<or> isServerError e1)
      \<longrightarrow> withRetry operation 2 1000 w0 = ((Inl e1, w1), [])) \<and>
   (operation w0 = (Inl e1, w1) \<and> (isNetworkError e1 \<or> isServerError e1) \<and>
    operation w1 = (Inl e2, w2) \<and> (isNetworkError e2 \<or> isServerError e2) \<and>
    operation w2 = (Inl e3, w3)
      \<longrightarrow> withRetry operation 2 1000 w0 = ((Inl e3, w3), [1000, 2000]))"
  by (auto simp: withRetry_again withRetry_success withRetry_fatal withRetry_exhausted)

theorem withRetry_default_budget_witness:
  "withRetry scripted 2 1000
     [Inl \<lparr>message = Some ''Service Unavailable'', status = Some 503\<rparr>,
      Inl \<lparr>message = Some ''Failed to fetch'', status = None\<rparr>,
      Inr ''audio'']
     = ((Inr ''audio'', []), [1000, 2000]) \<and>
   withRetry scripted 2 1000
     [Inl \<lparr>message = Some ''API key not valid'', status = Some 403\<rparr>, Inr ''audio'']
     = ((Inl \<lparr>message = Some ''API key not valid'', status = Some 403\<rparr>, [Inr ''audio'']), []) \<and>
   withRetry scripted 2 1000
     [Inl \<lparr>message = Some ''Service Unavailable'', status = Some 503\<rparr>,
      Inl \<lparr>message = Some ''Failed to fetch'', status = None\<rparr>,
      Inl \<lparr>message = Some ''Internal error'', status = Some 500\<rparr>,
      Inr ''audio'']
     = ((Inl \<lparr>message = Some ''Internal error'', status = Some 500\<rparr>, [Inr ''audio'']),
        [1000, 2000])"
proof -
  let ?e1 = "\<lparr>message = Some ''Service Unavailable'', status = Some 503\<rparr>"
  let ?e2 = "\<lparr>message = Some ''Failed to fetch'', status = None\<rparr>"
  let ?e3 = "\<lparr>message = Some ''Internal error'', status = Some 500\<rparr>"
  let ?e4 = "\<lparr>message = Some ''API key not valid'', status = Some 403\<rparr>"
  let ?ok = "Inr ''audio'' :: JsError + string"
  have t1: "isServerError ?e1" and t3: "isServerError ?e3"
    by (simp_all add: isServerError_def)
  have t2: "isNetworkError ?e2"
    by (simp add: isNetworkError_def message_includes_def)
  have t4: "\<not> (isNetworkError ?e4 \<or> isServerError ?e4)"
    by (simp add: isNetworkError_def isServerError_def message_includes_def)
  from withRetry_default_budget
         [of scripted "[Inl ?e1, Inl ?e2, ?ok]" ?e1 "[Inl ?e2, ?ok]" ?e2 "[?ok]" "''audio''" "[]"]
       withRetry_default_budget
         [of scripted "[Inl ?e4, ?ok]" ?e4 "[?ok]"]
       withRetry_default_budget
         [of scripted "[Inl ?e1, Inl ?e2, Inl ?e3, ?ok]" ?e1 "[Inl ?e2, Inl ?e3, ?ok]" ?e2
             "[Inl ?e3, ?ok]" _ "[?ok]" ?e3]
       t1 t2 t3 t4
  show ?thesis by (simp add: scripted_Cons)
qed

text \<open>
  Not every 5xx-equivalent status is transient for \<^verbatim>\<open>withRetry\<close>: an operation that fails
  twice with status 502 and would then succeed is not retried at all, the first error is
  propagated at once.
\<close>

theorem withRetry_5xx_counterexample:
  "status \<lparr>message = Some ''Bad Gateway'', status = Some 502\<rparr> = Some 502 \<and>
   withRetry scripted 2 1000
     [Inl \<lparr>message = Some ''Bad Gateway'', status = Some 502\<rparr>,
      Inl \<lparr>message = Some ''Bad Gateway'', status = Some 502\<rparr>,
      Inr ''audio'']
     = ((Inl \<lparr>message = Some ''Bad Gateway'', status = Some 502\<rparr>,
         [Inl \<lparr>message = Some ''Bad Gateway'', status = Some 502\<rparr>, Inr ''audio'']), [])"
  by (simp add: withRetry_fatal scripted_Cons isNetworkError_def isServerError_def
      message_includes_def)

section \<open>Properties of structure analysis\<close>

text \<open>Decimal printing is injective: the digits give the number back.\<close>

lemma digit_value: "d < 10 \<Longrightarrow> (of_char (digit_char d) :: nat) = 48 + d"
  by (simp add: digit_char_def)

lemma decimal_value: "foldl (\<lambda>acc c. 10 * acc + (of_char c - 48)) 0 (decimal n) = n"
proof (induction n rule: decimal.induct)
  case (1 n)
  show ?case
  proof (cases "10 \<le> n")
    case True
    then have "decimal n = decimal (n div 10) @ [digit_char (n mod 10)]"
      by (subst decimal.simps) simp
    with True "1.IH" show ?thesis by (simp add: digit_value)
  next
    case False
    then have "decimal n = [digit_char n]"
      by (subst decimal.simps) simp
    with False show ?thesis by (simp add: digit_value)
  qed
qed

lemma decimal_inj: "decimal m = decimal n \<longleftrightarrow> m = n"
  by (metis decimal_value)

lemma distinct_numbered: "distinct (map (\<lambda>k. pre @ decimal k) [a..<b])"
  by (simp add: distinct_map inj_on_def decimal_inj)

text \<open>The topics of one chapter: the counter advances by their number, the identifiers
  are numbered from the counter on, nothing is completed, and only the topic at index 0
  of chapter 0 is not locked.\<close>

lemma mapTopics_counter: "snd (mapTopics cIdx tIdx c ts) = c + length ts"
  by (induction ts arbitrary: tIdx c) (simp_all add: case_prod_beta Let_def)

lemma mapTopics_length: "length (fst (mapTopics cIdx tIdx c ts)) = length ts"
  by (induction ts arbitrary: tIdx c) (simp_all add: case_prod_beta Let_def)

lemma mapTopics_ids:
  "map t_id (fst (mapTopics cIdx tIdx c ts)) = map (\<lambda>k. ''topic-'' @ decimal k) [c..<c + length ts]"
proof (induction ts arbitrary: tIdx c)
  case Nil
  then show ?case by simp
next
  case (Cons t ts)
  have "[c..<c + length (t # ts)] = c # [Suc c..<Suc c + length ts]"
    by (subst upt_rec) simp
  with Cons.IH [of "tIdx + 1" "c + 1"] show ?case
    by (simp add: case_prod_beta Let_def)
qed

lemma mapTopics_completed: "map isCompleted (fst (mapTopics cIdx tIdx c ts)) = replicate (length ts) False"
  by (induction ts arbitrary: tIdx c) (simp_all add: case_prod_beta Let_def)

lemma mapTopics_locked_later:
  "0 < cIdx \<or> 0 < tIdx \<Longrightarrow>
   map isLocked (fst (mapTopics cIdx tIdx c ts)) = replicate (length ts) True"
  by (induction ts arbitrary: tIdx c) (auto simp: case_prod_beta Let_def)

lemma mapTopics_locked_first:
  "map isLocked (fst (mapTopics 0 0 c ts)) =
     (case ts of [] \<Rightarrow> [] | t # rest \<Rightarrow> False # replicate (length rest) True)"
  by (cases ts) (simp_all add: case_prod_beta Let_def mapTopics_locked_later)

text \<open>The chapters: \<open>topicCount\<close> is the number of topics of all chapters together.\<close>

lemma mapChapters_ids:
  "map ch_id (fst (mapChapters cIdx c chs)) = map (\<lambda>i. ''ch-'' @ decimal i) [cIdx..<cIdx + length chs]"
proof (induction chs arbitrary: cIdx c)
  case Nil
  then show ?case by simp
next
  case (Cons ch chs)
  have "[cIdx..<cIdx + length (ch # chs)] = cIdx # [Suc cIdx..<Suc cIdx + length chs]"
    by (subst upt_rec) simp
  with Cons.IH [of "cIdx + 1"] show ?case
    by (simp add: case_prod_beta Let_def)
qed

lemma mapChapters_topic_ids:
  "map t_id (concat (map topics (fst (mapChapters cIdx c chs)))) =
     map (\<lambda>k. ''topic-'' @ decimal k) [c..<c + length (concat (map rc_topics chs))]"
proof (induction chs arbitrary: cIdx c)
  case Nil
  then show ?case by simp
next
  case (Cons ch chs)
  let ?n = "length (rc_topics ch)" and ?m = "length (concat (map rc_topics chs))"
  have "[c..<c + (?n + ?m)] = [c..<c + ?n] @ [c + ?n..<c + ?n + ?m]"
    using upt_add_eq_append [of c "c + ?n" ?m] by (simp add: add.assoc)
  with Cons.IH [of "cIdx + 1" "c + ?n"] show ?case
    by (simp add: case_prod_beta Let_def mapTopics_ids mapTopics_counter)
qed

lemma mapChapters_completed:
  "map isCompleted (concat (map topics (fst (mapChapters cIdx c chs)))) =
     replicate (length (concat (map rc_topics chs))) False"
  by (induction chs arbitrary: cIdx c)
     (simp_all add: case_prod_beta Let_def mapTopics_completed replicate_add)

lemma mapChapters_locked_later:
  "0 < cIdx \<Longrightarrow>
   map isLocked (concat (map topics (fst (mapChapters cIdx c chs)))) =
     replicate (length (concat (map rc_topics chs))) True"
  by (induction chs arbitrary: cIdx c)
     (simp_all add: case_prod_beta Let_def mapTopics_locked_later replicate_add)

lemma mapChapters_locked_first:
  "map isLocked (concat (map topics (fst (mapChapters 0 c (ch # chs))))) =
     (case rc_topics ch of [] \<Rightarrow> [] | t # rest \<Rightarrow> False # replicate (length rest) True) @
     replicate (length (concat (map rc_topics chs))) True"
  by (simp add: case_prod_beta Let_def mapTopics_locked_first mapChapters_locked_later)

text \<open>
  What structure analysis makes of any parsed answer: chapter identifiers \<open>ch-0\<close>,
  \<open>ch-1\<close>, ... in input order, topic identifiers \<open>topic-0\<close>, \<open>topic-1\<close>, ... in flattened
  order (hence unique), no topic completed. The lock flags depend on the first chapter:
  if it has a topic, that topic alone is unlocked; if it has none, every topic of the
  outline is locked.
\<close>

lemma structuredData_chapter_ids:
  "map ch_id (chapters (structuredData rawData)) =
     map (\<lambda>i. ''ch-'' @ decimal i) [0..<length (r_chapters rawData)]"
  using mapChapters_ids [of 0 0] by (simp add: structuredData_def)

lemma structuredData_topic_ids:
  "map t_id (allTopics (structuredData rawData)) =
     map (\<lambda>k. ''topic-'' @ decimal k) [0..<length (concat (map rc_topics (r_chapters rawData)))]"
  using mapChapters_topic_ids [of 0 0] by (simp add: structuredData_def allTopics_def)

lemma structuredData_distinct_ids:
  "distinct (map ch_id (chapters (structuredData rawData)))"
  "distinct (map t_id (allTopics (structuredData rawData)))"
  by (simp_all only: structuredData_chapter_ids structuredData_topic_ids distinct_numbered)

lemma structuredData_none_completed:
  "map isCompleted (allTopics (structuredData rawData)) =
     replicate (length (concat (map rc_topics (r_chapters rawData)))) False"
  using mapChapters_completed [of 0 0] by (simp add: structuredData_def allTopics_def)

lemma structuredData_locked:
  "map isLocked (allTopics (structuredData rawData)) =
     (case r_chapters rawData of
        [] \<Rightarrow> []
      | ch # chs \<Rightarrow>
          (case rc_topics ch of [] \<Rightarrow> [] | t # rest \<Rightarrow> False # replicate (length rest) True) @
          replicate (length (concat (map rc_topics chs))) True)"
proof (cases "r_chapters rawData")
  case Nil
  then show ?thesis by (simp add: structuredData_def allTopics_def)
next
  case (Cons ch chs)
  then show ?thesis
    by (simp add: structuredData_def allTopics_def mapChapters_locked_first
        del: mapChapters.simps)
qed

lemma structuredData_first_chapter_empty:
  assumes "r_chapters rawData = ch # chs" and "rc_topics ch = []"
  shows "filter (\<lambda>t. \<not> isLocked t) (allTopics (structuredData rawData)) = []"
proof -
  have "map isLocked (allTopics (structuredData rawData)) =
          replicate (length (concat (map rc_topics chs))) True"
    using assms by (simp add: structuredData_locked)
  then have "\<forall>b \<in> set (map isLocked (allTopics (structuredData rawData))). b"
    by simp
  then show ?thesis by (simp add: filter_empty_conv)
qed

lemma decimal_digits:
  "decimal 0 = ''0''" "decimal 1 = ''1''" "decimal (Suc 0) = ''1''" "decimal 2 = ''2''"
  by code_simp+

lemma translated_not_transient:
  "\<not> isNetworkError (Error unreadableMessage)" "\<not> isServerError (Error unreadableMessage)"
  "\<not> isNetworkError (Error tooLargeMessage)" "\<not> isServerError (Error tooLargeMessage)"
  by (simp_all add: isNetworkError_def isServerError_def message_includes_def Error_def
      unreadableMessage_def tooLargeMessage_def)

text \<open>What one attempt makes of a failed call of the service.\<close>

lemma analyzeAttempt_failed:
  assumes "generateContent (cleanBase64 base64Pdf) w = (Inl e, w')"
  shows "analyzeAttempt parse generateContent base64Pdf w =
     (if message_includes e ''document has no pages'' \<or> status e = Some 400
      then (Inl (Error unreadableMessage), w')
      else if message_includes e ''xhr'' \<or> message_includes e ''Rpc failed'' \<or>
              status e = Some 500
      then (Inl (Error tooLargeMessage), w')
      else (Inl e, w'))"
  using assms by (simp add: analyzeAttempt_def)

text \<open>
  The parts of the contract that hold: a failure that says the document has no pages, or
  has status 400, is not retried and surfaces as the message about an empty, encrypted or
  corrupted file; that message differs from the one about a file that is too large.
\<close>

lemma analyzePdfStructure_unreadable:
  assumes "generateContent (cleanBase64 base64Pdf) w = (Inl e, w')"
    and "message_includes e ''document has no pages'' \<or> status e = Some 400"
  shows "analyzePdfStructure parse generateContent base64Pdf w =
           ((Inl (Error unreadableMessage), w'), [])"
  unfolding analyzePdfStructure_def
  by (rule withRetry_fatal) (use assms in \<open>simp_all add: analyzeAttempt_failed translated_not_transient\<close>)

lemma messages_differ: "unreadableMessage \<noteq> tooLargeMessage"
  by (simp add: unreadableMessage_def tooLargeMessage_def)

text \<open>
  Where it does not hold: a failure whose message contains \<^verbatim>\<open>xhr\<close> or \<^verbatim>\<open>Rpc failed\<close>, or whose
  status is 500, is rewritten by the \<^verbatim>\<open>catch\<close> inside the closure before \<^verbatim>\<open>withRetry\<close> sees
  it. The rewritten error is not transient, so the call is never repeated.
\<close>

lemma analyzePdfStructure_too_large:
  assumes "generateContent (cleanBase64 base64Pdf) w = (Inl e, w')"
    and "\<not> (message_includes e ''document has no pages'' \<or> status e = Some 400)"
    and "message_includes e ''xhr'' \<or> message_includes e ''Rpc failed'' \<or> status e = Some 500"
  shows "analyzePdfStructure parse generateContent base64Pdf w =
           ((Inl (Error tooLargeMessage), w'), [])"
  unfolding analyzePdfStructure_def
  by (rule withRetry_fatal) (use assms in \<open>simp_all add: analyzeAttempt_failed translated_not_transient\<close>)

text \<open>
  C3. Structure analysis accepts an answer whose first chapter has no topics. The outline
  it returns for the example has two topics, \<open>topic-0\<close> and \<open>topic-1\<close>, none completed,
  and both locked: no topic is unlocked, although the outline has topics.
\<close>

theorem analyzePdfStructure_empty_first_chapter:
  "analyzePdfStructure (parseAs emptyFirstChapter) (answering ''{}'') ''JVBERi0='' 0
     = ((Inr (structuredData emptyFirstChapter), 1), []) \<and>
   map ch_id (chapters (structuredData emptyFirstChapter)) = [''ch-0'', ''ch-1''] \<and>
   map (\<lambda>ch. length (topics ch)) (chapters (structuredData emptyFirstChapter)) = [0, 2] \<and>
   map t_id (allTopics (structuredData emptyFirstChapter)) = [''topic-0'', ''topic-1''] \<and>
   map isCompleted (allTopics (structuredData emptyFirstChapter)) = [False, False] \<and>
   map isLocked (allTopics (structuredData emptyFirstChapter)) = [True, True]"
proof -
  have "analyzeAttempt (parseAs emptyFirstChapter) (answering ''{}'') ''JVBERi0='' 0
          = (Inr (structuredData emptyFirstChapter), 1)"
    by (simp add: analyzeAttempt_def answering_def parseAs_def)
  then have "analyzePdfStructure (parseAs emptyFirstChapter) (answering ''{}'') ''JVBERi0='' 0
     = ((Inr (structuredData emptyFirstChapter), 1), [])"
    unfolding analyzePdfStructure_def by (rule withRetry_success)
  moreover have "structuredData emptyFirstChapter =
     \<lparr>cs_title = ''Course'', summary = ''Summary'', chapters =
        [\<lparr>ch_id = ''ch-0'', ch_title = ''Preface'', topics = []\<rparr>,
         \<lparr>ch_id = ''ch-1'', ch_title = ''Basics'', topics =
            [\<lparr>t_id = ''topic-0'', t_title = ''A'', description = ''a'',
              isCompleted = False, isLocked = True\<rparr>,
             \<lparr>t_id = ''topic-1'', t_title = ''B'', description = ''b'',
              isCompleted = False, isLocked = True\<rparr>]\<rparr>]\<rparr>"
    by (simp add: structuredData_def emptyFirstChapter_def decimal_digits)
  ultimately show ?thesis by (simp add: allTopics_def)
qed

text \<open>
  C6. A failure of the service with status 500, and one with the message of a failed
  transport (\<^verbatim>\<open>Rpc failed due to xhr error\<close>), are both transient for \<^verbatim>\<open>withRetry\<close>, yet
  structure analysis does not retry them: the service is called once, nothing is waited
  for, and the message about a file that is too large is surfaced. A failure with status
  503 passes the \<^verbatim>\<open>catch\<close> unchanged and is retried up to the budget, three calls in all.
\<close>

theorem analyzePdfStructure_transient_not_retried:
  "isServerError \<lparr>message = Some ''Internal error'', status = Some 500\<rparr> \<and>
   analyzePdfStructure (parseAs emptyFirstChapter)
       (failing \<lparr>message = Some ''Internal error'', status = Some 500\<rparr>) ''JVBERi0='' 0
     = ((Inl (Error tooLargeMessage), 1), []) \<and>
   isNetworkError \<lparr>message = Some ''Rpc failed due to xhr error'', status = None\<rparr> \<and>
   analyzePdfStructure (parseAs emptyFirstChapter)
       (failing \<lparr>message = Some ''Rpc failed due to xhr error'', status = None\<rparr>) ''JVBERi0='' 0
     = ((Inl (Error tooLargeMessage), 1), []) \<and>
   analyzePdfStructure (parseAs emptyFirstChapter)
       (failing \<lparr>message = Some ''Service Unavailable'', status = Some 503\<rparr>) ''JVBERi0='' 0
     = ((Inl \<lparr>message = Some ''Service Unavailable'', status = Some 503\<rparr>, 3), [1000, 2000])"
proof -
  let ?e500 = "\<lparr>message = Some ''Internal error'', status = Some 500\<rparr>"
  let ?exhr = "\<lparr>message = Some ''Rpc failed due to xhr error'', status = None\<rparr>"
  let ?e503 = "\<lparr>message = Some ''Service Unavailable'', status = Some 503\<rparr>"
  let ?parse = "parseAs emptyFirstChapter"
  have c500: "isServerError ?e500" and c503: "isServerError ?e503"
    by (simp_all add: isServerError_def)
  have cxhr: "isNetworkError ?exhr"
    by (simp add: isNetworkError_def message_includes_def)
  have r500: "analyzePdfStructure ?parse (failing ?e500) ''JVBERi0='' 0
                = ((Inl (Error tooLargeMessage), 1), [])"
    by (rule analyzePdfStructure_too_large [where e = ?e500])
       (simp_all add: failing_def message_includes_def)
  have rxhr: "analyzePdfStructure ?parse (failing ?exhr) ''JVBERi0='' 0
                = ((Inl (Error tooLargeMessage), 1), [])"
    by (rule analyzePdfStructure_too_large [where e = ?exhr])
       (simp_all add: failing_def message_includes_def)
  let ?op = "analyzeAttempt ?parse (failing ?e503) ''JVBERi0=''"
  have attempt: "?op calls = (Inl ?e503, calls + 1)" for calls
    by (simp add: analyzeAttempt_failed [where e = ?e503 and w' = "calls + 1"] failing_def
        message_includes_def)
  have a0: "?op 0 = (Inl ?e503, 1)" and a1: "?op 1 = (Inl ?e503, 2)"
    and a2: "?op 2 = (Inl ?e503, 3)"
    using attempt [of 0] attempt [of 1] attempt [of 2] by simp_all
  have w2: "withRetry ?op 0 4000 2 = ((Inl ?e503, 3), [])"
    using withRetry_exhausted [where operation = ?op and w = 2 and retries = 0, of _ _ 4000] a2
    by simp
  have w1: "withRetry ?op 1 2000 1 = ((Inl ?e503, 3), [2000])"
    using withRetry_again [where operation = ?op and w = 1 and retries = 1 and delay = 2000]
      a1 c503 w2 by simp
  have r503: "analyzePdfStructure ?parse (failing ?e503) ''JVBERi0='' 0
                = ((Inl ?e503, 3), [1000, 2000])"
    unfolding analyzePdfStructure_def
    using withRetry_again [where operation = ?op and w = 0 and retries = 2 and delay = 1000]
      a0 c503 w1 by simp
  from c500 cxhr r500 rxhr r503 show ?thesis by blast
qed

section \<open>Properties of image synthesis\<close>

text \<open>The loop returns the data URI of the first part that has inline data, whatever
  comes after it, and nothing when no part has inline data.\<close>

lemma firstInlineImage_none:
  "(\<forall>p \<in> set ps. inlineData p = None) \<Longrightarrow> firstInlineImage ps = None"
  by (induction ps) simp_all

lemma firstInlineImage_first:
  "(\<forall>p \<in> set before. inlineData p = None) \<Longrightarrow> inlineData part = Some d \<Longrightarrow>
   firstInlineImage (before @ part # after) = Some (dataUri d)"
  by (induction before) simp_all

lemma responseParts_first_candidate:
  "candidates response = Some (c # cs) \<Longrightarrow> content c = Some \<lparr>parts = Some ps\<rparr> \<Longrightarrow>
   responseParts response = ps"
  by (simp add: responseParts_def js_index_def)

lemma responseParts_missing:
  "candidates response = None \<or> candidates response = Some [] \<or>
   (\<exists>c cs. candidates response = Some (c # cs) \<and>
      (content c = None \<or> content c = Some \<lparr>parts = None\<rparr>)) \<Longrightarrow>
   responseParts response = []"
  by (auto simp: responseParts_def js_index_def)

text \<open>
  C8. Once the client is built, \<^verbatim>\<open>generateLessonImage\<close> does not throw, whatever the prompt,
  the external call and the world are. It returns the fixed placeholder address when the
  call fails, when the response has no first candidate, when that candidate has no
  content or no parts, and when none of its parts has inline data. When some part of the
  first candidate has inline data, it returns the data URI
  \<open>data:<mimeType>;base64,<data>\<close> of the first such part (a missing \<^verbatim>\<open>mimeType\<close> or \<^verbatim>\<open>data\<close>
  prints as \<^verbatim>\<open>undefined\<close>). Candidates after the first are not looked at.
\<close>

theorem generateLessonImage_result:
  assumes client: "getAiClient = Inr ai"
    and call: "generateContent ai prompt w = (answer, w')"
  shows "(\<exists>url. generateLessonImage getAiClient generateContent prompt w = (Inr url, w')) \<and>
   (\<forall>e. answer = Inl e \<longrightarrow>
      generateLessonImage getAiClient generateContent prompt w
        = (Inr ''https://picsum.photos/800/450?grayscale&blur=2'', w')) \<and>
   (\<forall>response. answer = Inr response \<and>
        (candidates response = None \<or> candidates response = Some [] \<or>
         (\<exists>c cs. candidates response = Some (c # cs) \<and>
            (content c = None \<or> content c = Some \<lparr>parts = None\<rparr>))) \<longrightarrow>
      generateLessonImage getAiClient generateContent prompt w
        = (Inr ''https://picsum.photos/800/450?grayscale&blur=2'', w')) \<and>
   (\<forall>response c cs ps. answer = Inr response \<and> candidates response = Some (c # cs) \<and>
        content c = Some \<lparr>parts = Some ps\<rparr> \<and> (\<forall>p \<in> set ps. inlineData p = None) \<longrightarrow>
      generateLessonImage getAiClient generateContent prompt w
        = (Inr ''https://picsum.photos/800/450?grayscale&blur=2'', w')) \<and>
   (\<forall>response c cs before part after d. answer = Inr response \<and>
        candidates response = Some (c # cs) \<and>
        content c = Some \<lparr>parts = Some (before @ part # after)\<rparr> \<and>
        (\<forall>p \<in> set before. inlineData p = None) \<and> inlineData part = Some d \<longrightarrow>
      generateLessonImage getAiClient generateContent prompt w
        = (Inr (''data:'' @ (case mimeType d of None \<Rightarrow> ''undefined'' | Some m \<Rightarrow> m) @
                '';base64,'' @ (case data d of None \<Rightarrow> ''undefined'' | Some b \<Rightarrow> b)), w'))"
proof -
  have run: "generateLessonImage getAiClient generateContent prompt w =
      (case answer of
         Inl e \<Rightarrow> (Inr placeholder, w')
       | Inr response \<Rightarrow>
           (case firstInlineImage (responseParts response) of
              Some url \<Rightarrow> (Inr url, w')
            | None \<Rightarrow> (Inr placeholder, w')))"
    by (simp add: generateLessonImage_def client call)
  have returns: "\<exists>url. generateLessonImage getAiClient generateContent prompt w = (Inr url, w')"
    unfolding run by (simp split: sum.split option.split)
  have failed: "generateLessonImage getAiClient generateContent prompt w
        = (Inr ''https://picsum.photos/800/450?grayscale&blur=2'', w')"
    if "answer = Inl e" for e
    unfolding run using that by (simp add: placeholder_def)
  have missing: "generateLessonImage getAiClient generateContent prompt w
        = (Inr ''https://picsum.photos/800/450?grayscale&blur=2'', w')"
    if "answer = Inr response"
      and "candidates response = None \<or> candidates response = Some [] \<or>
         (\<exists>c cs. candidates response = Some (c # cs) \<and>
            (content c = None \<or> content c = Some \<lparr>parts = None\<rparr>))"
    for response
    unfolding run using that(1) responseParts_missing [OF that(2)]
    by (simp add: placeholder_def)
  have no_image: "generateLessonImage getAiClient generateContent prompt w
        = (Inr ''https://picsum.photos/800/450?grayscale&blur=2'', w')"
    if "answer = Inr response" and "candidates response = Some (c # cs)"
      and "content c = Some \<lparr>parts = Some ps\<rparr>" and "\<forall>p \<in> set ps. inlineData p = None"
    for response c cs ps
    unfolding run
    using that(1) responseParts_first_candidate [OF that(2) that(3)]
      firstInlineImage_none [OF that(4)]
    by (simp add: placeholder_def)
  have image: "generateLessonImage getAiClient generateContent prompt w
        = (Inr (''data:'' @ (case mimeType d of None \<Rightarrow> ''undefined'' | Some m \<Rightarrow> m) @
                '';base64,'' @ (case data d of None \<Rightarrow> ''undefined'' | Some b \<Rightarrow> b)), w')"
    if "answer = Inr response" and "candidates response = Some (c # cs)"
      and "content c = Some \<lparr>parts = Some (before @ part # after)\<rparr>"
      and "\<forall>p \<in> set before. inlineData p = None" and "inlineData part = Some d"
    for response c cs before part after d
    unfolding run
    using that(1) responseParts_first_candidate [OF that(2) that(3)]
      firstInlineImage_first [OF that(4) that(5)]
    by (simp add: dataUri_def template_def)
  from returns failed missing no_image image show ?thesis by blast
qed

theorem generateLessonImage_result_witness:
  "generateLessonImage (Inr ())
      (imageService (Inr (oneCandidate
         [\<lparr>part_text = Some ''Here it is'', inlineData = None\<rparr>,
          \<lparr>part_text = None,
           inlineData = Some \<lparr>mimeType = Some ''image/png'', data = Some ''iVBORw0KGgo=''\<rparr>\<rparr>,
          \<lparr>part_text = None,
           inlineData = Some \<lparr>mimeType = Some ''image/jpeg'', data = Some ''AAAA''\<rparr>\<rparr>])))
      ''a cat'' 0
     = (Inr ''data:image/png;base64,iVBORw0KGgo='', 1) \<and>
   generateLessonImage (Inr ())
      (imageService (Inr (oneCandidate [\<lparr>part_text = Some ''No image'', inlineData = None\<rparr>])))
      ''a cat'' 0
     = (Inr ''https://picsum.photos/800/450?grayscale&blur=2'', 1) \<and>
   generateLessonImage (Inr ()) (imageService (Inr \<lparr>candidates = None\<rparr>)) ''a cat'' 0
     = (Inr ''https://picsum.photos/800/450?grayscale&blur=2'', 1) \<and>
   generateLessonImage (Inr ()) (imageService (Inl (Error ''quota exceeded''))) ''a cat'' 0
     = (Inr ''https://picsum.photos/800/450?grayscale&blur=2'', 1)"
proof -
  let ?txt = "\<lparr>part_text = Some ''Here it is'', inlineData = None\<rparr>"
  let ?png = "\<lparr>mimeType = Some ''image/png'', data = Some ''iVBORw0KGgo=''\<rparr>"
  let ?p1 = "\<lparr>part_text = None, inlineData = Some ?png\<rparr>"
  let ?p2 = "\<lparr>part_text = None,
      inlineData = Some \<lparr>mimeType = Some ''image/jpeg'', data = Some ''AAAA''\<rparr>\<rparr>"
  let ?none = "\<lparr>part_text = Some ''No image'', inlineData = None\<rparr>"
  have client: "(Inr () :: JsError + unit) = Inr ()" by simp
  have call: "imageService answer () ''a cat'' 0 = (answer, 1)" for answer
    by (simp add: imageService_def)
  have image: "generateLessonImage (Inr ()) (imageService (Inr (oneCandidate [?txt, ?p1, ?p2])))
      ''a cat'' 0 = (Inr ''data:image/png;base64,iVBORw0KGgo='', 1)"
  proof -
    have "candidates (oneCandidate [?txt, ?p1, ?p2])
            = Some (\<lparr>content = Some \<lparr>parts = Some ([?txt] @ ?p1 # [?p2])\<rparr>\<rparr> # [])"
      and "content \<lparr>content = Some \<lparr>parts = Some ([?txt] @ ?p1 # [?p2])\<rparr>\<rparr>
            = Some \<lparr>parts = Some ([?txt] @ ?p1 # [?p2])\<rparr>"
      and "\<forall>p \<in> set [?txt]. inlineData p = None" and "inlineData ?p1 = Some ?png"
      by (simp_all add: oneCandidate_def)
    with generateLessonImage_result [where getAiClient = "Inr ()" and ai = "()" and
        generateContent = "imageService (Inr (oneCandidate [?txt, ?p1, ?p2]))" and prompt = "''a cat''" and w = 0 and
        answer = "Inr (oneCandidate [?txt, ?p1, ?p2])" and w' = 1, OF client call]
    have "generateLessonImage (Inr ()) (imageService (Inr (oneCandidate [?txt, ?p1, ?p2])))
      ''a cat'' 0
        = (Inr (''data:'' @ (case mimeType ?png of None \<Rightarrow> ''undefined'' | Some m \<Rightarrow> m) @
                '';base64,'' @ (case data ?png of None \<Rightarrow> ''undefined'' | Some b \<Rightarrow> b)), 1)"
      by blast
    then show ?thesis by simp
  qed
  have no_image: "generateLessonImage (Inr ()) (imageService (Inr (oneCandidate [?none])))
      ''a cat'' 0 = (Inr ''https://picsum.photos/800/450?grayscale&blur=2'', 1)"
  proof -
    have "candidates (oneCandidate [?none]) = Some (\<lparr>content = Some \<lparr>parts = Some [?none]\<rparr>\<rparr> # [])"
      and "content \<lparr>content = Some \<lparr>parts = Some [?none]\<rparr>\<rparr> = Some \<lparr>parts = Some [?none]\<rparr>"
      and "\<forall>p \<in> set [?none]. inlineData p = None"
      by (simp_all add: oneCandidate_def)
    with generateLessonImage_result [where getAiClient = "Inr ()" and ai = "()" and
        generateContent = "imageService (Inr (oneCandidate [?none]))" and prompt = "''a cat''" and w = 0 and
        answer = "Inr (oneCandidate [?none])" and w' = 1, OF client call]
    show ?thesis by blast
  qed
  have missing: "generateLessonImage (Inr ()) (imageService (Inr \<lparr>candidates = None\<rparr>))
      ''a cat'' 0 = (Inr ''https://picsum.photos/800/450?grayscale&blur=2'', 1)"
  proof -
    have "candidates \<lparr>candidates = None\<rparr> = None" by simp
    with generateLessonImage_result [where getAiClient = "Inr ()" and ai = "()" and
        generateContent = "imageService (Inr \<lparr>candidates = None\<rparr>)" and prompt = "''a cat''" and w = 0 and
        answer = "Inr \<lparr>candidates = None\<rparr>" and w' = 1, OF client call]
    show ?thesis by blast
  qed
  have failed: "generateLessonImage (Inr ()) (imageService (Inl (Error ''quota exceeded'')))
      ''a cat'' 0 = (Inr ''https://picsum.photos/800/450?grayscale&blur=2'', 1)"
    using generateLessonImage_result [where getAiClient = "Inr ()" and ai = "()" and
        generateContent = "imageService (Inl (Error ''quota exceeded''))" and prompt = "''a cat''" and w = 0 and
        answer = "Inl (Error ''quota exceeded'')" and w' = 1, OF client call]
    by blast
  from image no_image missing failed show ?thesis by blast
qed

text \<open>
  C8, counterexample. Two cases in which the function does otherwise than "never throws, and a data URI
  whenever the response holds inline image data". A response whose first candidate has
  only text and whose second candidate has the image gives the placeholder: only
  \<^verbatim>\<open>candidates?.[0]\<close> is read. And when the constructor of the client throws, the function
  throws the same value, without calling the service: the construction stands before the
  \<^verbatim>\<open>try\<close>.
\<close>

theorem generateLessonImage_counterexample:
  "generateLessonImage (Inr ())
      (imageService (Inr \<lparr>candidates = Some
         [\<lparr>content = Some \<lparr>parts = Some [\<lparr>part_text = Some ''Here it is'', inlineData = None\<rparr>]\<rparr>\<rparr>,
          \<lparr>content = Some \<lparr>parts = Some [\<lparr>part_text = None, inlineData =
             Some \<lparr>mimeType = Some ''image/png'', data = Some ''iVBORw0KGgo=''\<rparr>\<rparr>]\<rparr>\<rparr>]\<rparr>))
      ''a cat'' 0
     = (Inr ''https://picsum.photos/800/450?grayscale&blur=2'', 1) \<and>
   generateLessonImage
      (Inl (Error ''An API Key must be set when running in a browser'') :: JsError + unit)
      (imageService (Inr \<lparr>candidates = None\<rparr>)) ''a cat'' 0
     = (Inl (Error ''An API Key must be set when running in a browser''), 0)"
  by (simp add: generateLessonImage_def imageService_def responseParts_def js_index_def
      placeholder_def)

section \<open>Properties of the audio container\<close>

lemma le_bytes_2: "le_bytes 2 v = [of_nat (v mod 256), of_nat (v div 256 mod 256)]"
  by (simp add: numeral_2_eq_2)

lemma le_bytes_4:
  "le_bytes 4 v = [of_nat (v mod 256), of_nat (v div 256 mod 256),
                   of_nat (v div 256 div 256 mod 256), of_nat (v div 256 div 256 div 256 mod 256)]"
proof -
  have "(4::nat) = Suc (Suc (Suc (Suc 0)))" by simp
  then show ?thesis by (simp only: le_bytes.simps)
qed

lemma length_le_bytes: "length (le_bytes n v) = n"
  by (induction n arbitrary: v) simp_all

lemma length_overwrite:
  "off + length bs \<le> length view \<Longrightarrow> length (overwrite view off bs) = length view"
  by (simp add: overwrite_def)

lemma overwrite_append:
  "off + length bs \<le> length h \<Longrightarrow> overwrite (h @ t) off bs = overwrite h off bs @ t"
  by (simp add: overwrite_def)

lemma setBytes_append:
  "off + length bs \<le> length h \<Longrightarrow> setBytes (h @ t) off bs = Some (overwrite h off bs @ t)"
  by (simp add: setBytes_def overwrite_append)

lemma setUint8_append:
  "off < length h \<Longrightarrow>
   setUint8 (h @ t) off v = Some (overwrite h off (le_bytes 1 (ToUint 8 v)) @ t)"
  by (simp add: setUint8_def setBytes_append)

lemma setUint16_append:
  "off + 2 \<le> length h \<Longrightarrow>
   setUint16 (h @ t) off v True = Some (overwrite h off (le_bytes 2 (ToUint 16 v)) @ t)"
  by (simp add: setUint16_def setBytes_append length_le_bytes)

lemma setUint32_append:
  "off + 4 \<le> length h \<Longrightarrow>
   setUint32 (h @ t) off v True = Some (overwrite h off (le_bytes 4 (ToUint 32 v)) @ t)"
  by (simp add: setUint32_def setBytes_append length_le_bytes)


lemma overwrite_Cons:
  assumes "off + Suc (length bs) \<le> length h"
  shows "overwrite (overwrite h off [b]) (off + 1) bs = overwrite h off (b # bs)"
proof -
  from assms have "off < length h" by simp
  then have "take (Suc off) (take off h @ b # drop (Suc off) h) = take off h @ [b]"
    by simp
  moreover have "drop (Suc (off + length bs)) (take off h @ b # drop (Suc off) h)
      = drop (Suc (off + length bs)) h"
    using \<open>off < length h\<close> by (simp add: min_def add.commute)
  ultimately show ?thesis by (simp add: overwrite_def)
qed

lemma writeString_append:
  "off + length s \<le> length h \<Longrightarrow>
   writeString (h @ t) off s = Some (overwrite h off (charCodes s) @ t)"
proof (induction s arbitrary: h off)
  case Nil
  then show ?case by (simp add: overwrite_def charCodes_def)
next
  case (Cons c cs)
  let ?b = "of_nat (of_char c) :: byte"
  have tou: "ToUint 8 (of_char c) = of_char c"
  proof -
    have "(of_char c :: int) mod 2 ^ 8 = of_char c" by simp
    moreover have "nat (of_char c) = of_char c"
      by (simp flip: of_nat_of_char [where ?'a = int])
    ultimately show ?thesis by (simp only: ToUint_def)
  qed
  have "off < length h" using Cons.prems by simp
  then have step: "setUint8 (h @ t) off (of_char c) = Some (overwrite h off [?b] @ t)"
    by (simp add: setUint8_append tou)
  have len: "length (overwrite h off [?b]) = length h"
    using Cons.prems by (simp add: length_overwrite)
  have "writeString (overwrite h off [?b] @ t) (off + 1) cs =
          Some (overwrite (overwrite h off [?b]) (off + 1) (charCodes cs) @ t)"
    using Cons.prems by (intro Cons.IH) (simp add: len)
  moreover have "overwrite (overwrite h off [?b]) (off + 1) (charCodes cs)
      = overwrite h off (?b # charCodes cs)"
    using Cons.prems by (intro overwrite_Cons) (simp add: charCodes_def)
  ultimately show ?case by (simp add: step charCodes_def)
qed



lemma setBytes_tail:
  "length h = off \<Longrightarrow> length t = length bs \<Longrightarrow> setBytes (h @ t) off bs = Some (h @ bs)"
  by (simp add: setBytes_def overwrite_def)

lemma length_charCodes: "length (charCodes s) = length s"
  by (simp add: charCodes_def)

lemma zeros_44: "replicate 44 (0::byte) =
  [0,0,0,0, 0,0,0,0, 0,0,0,0, 0,0,0,0, 0,0,0,0, 0,0,0,0, 0,0,0,0, 0,0,0,0, 0,0,0,0, 0,0,0,0, 0,0,0,0]"
  by (simp add: eval_nat_numeral)

lemma pcmToWav_run:
  "\<exists>h. length h = 44 \<and>
     pcmToWav pcmData sampleRate = Some \<lparr>blob_bytes = h @ pcmData, blob_type = ''audio/wav''\<rparr> \<and>
     h = overwrite (overwrite (overwrite (overwrite (overwrite (overwrite (overwrite (overwrite
          (overwrite (overwrite (overwrite (overwrite (overwrite (replicate 44 0)
            0 (charCodes ''RIFF''))
            4 (le_bytes 4 (ToUint 32 (36 + int (length pcmData)))))
            8 (charCodes ''WAVE''))
            12 (charCodes ''fmt ''))
            16 (le_bytes 4 (ToUint 32 16)))
            20 (le_bytes 2 (ToUint 16 1)))
            22 (le_bytes 2 (ToUint 16 1)))
            24 (le_bytes 4 (ToUint 32 sampleRate)))
            28 (le_bytes 4 (ToUint 32 (2 * sampleRate))))
            32 (le_bytes 2 (ToUint 16 2)))
            34 (le_bytes 2 (ToUint 16 16)))
            36 (charCodes ''data''))
            40 (le_bytes 4 (ToUint 32 (int (length pcmData))))"
proof -
  let ?T = "replicate (length pcmData) (0::byte)"
  note len = length_overwrite length_le_bytes length_charCodes
  note wr = writeString_append setUint32_append setUint16_append
  define h0 where "h0 = replicate 44 (0::byte)"
  define h1 where "h1 = overwrite h0 0 (charCodes ''RIFF'')"
  define h2 where "h2 = overwrite h1 4 (le_bytes 4 (ToUint 32 (36 + int (length pcmData))))"
  define h3 where "h3 = overwrite h2 8 (charCodes ''WAVE'')"
  define h4 where "h4 = overwrite h3 12 (charCodes ''fmt '')"
  define h5 where "h5 = overwrite h4 16 (le_bytes 4 (ToUint 32 16))"
  define h6 where "h6 = overwrite h5 20 (le_bytes 2 (ToUint 16 1))"
  define h7 where "h7 = overwrite h6 22 (le_bytes 2 (ToUint 16 1))"
  define h8 where "h8 = overwrite h7 24 (le_bytes 4 (ToUint 32 sampleRate))"
  define h9 where "h9 = overwrite h8 28 (le_bytes 4 (ToUint 32 (2 * sampleRate)))"
  define h10 where "h10 = overwrite h9 32 (le_bytes 2 (ToUint 16 2))"
  define h11 where "h11 = overwrite h10 34 (le_bytes 2 (ToUint 16 16))"
  define h12 where "h12 = overwrite h11 36 (charCodes ''data'')"
  define h13 where "h13 = overwrite h12 40 (le_bytes 4 (ToUint 32 (int (length pcmData))))"
  have l0: "length h0 = 44" by (simp add: h0_def)
  have l1: "length h1 = 44" by (simp add: h1_def len l0)
  have l2: "length h2 = 44" by (simp add: h2_def len l1)
  have l3: "length h3 = 44" by (simp add: h3_def len l2)
  have l4: "length h4 = 44" by (simp add: h4_def len l3)
  have l5: "length h5 = 44" by (simp add: h5_def len l4)
  have l6: "length h6 = 44" by (simp add: h6_def len l5)
  have l7: "length h7 = 44" by (simp add: h7_def len l6)
  have l8: "length h8 = 44" by (simp add: h8_def len l7)
  have l9: "length h9 = 44" by (simp add: h9_def len l8)
  have l10: "length h10 = 44" by (simp add: h10_def len l9)
  have l11: "length h11 = 44" by (simp add: h11_def len l10)
  have l12: "length h12 = 44" by (simp add: h12_def len l11)
  have l13: "length h13 = 44" by (simp add: h13_def len l12)
  have s1: "writeString (h0 @ ?T) 0 ''RIFF'' = Some (h1 @ ?T)"
    by (simp add: h1_def wr l0 del: writeString.simps)
  have s2: "setUint32 (h1 @ ?T) 4 (36 + int (length pcmData)) True = Some (h2 @ ?T)"
    by (simp add: h2_def wr l1)
  have s3: "writeString (h2 @ ?T) 8 ''WAVE'' = Some (h3 @ ?T)"
    by (simp add: h3_def wr l2 del: writeString.simps)
  have s4: "writeString (h3 @ ?T) 12 ''fmt '' = Some (h4 @ ?T)"
    by (simp add: h4_def wr l3 del: writeString.simps)
  have s5: "setUint32 (h4 @ ?T) 16 16 True = Some (h5 @ ?T)"
    by (simp add: h5_def wr l4)
  have s6: "setUint16 (h5 @ ?T) 20 1 True = Some (h6 @ ?T)"
    by (simp add: h6_def wr l5)
  have s7: "setUint16 (h6 @ ?T) 22 1 True = Some (h7 @ ?T)"
    by (simp add: h7_def wr l6)
  have s8: "setUint32 (h7 @ ?T) 24 sampleRate True = Some (h8 @ ?T)"
    by (simp add: h8_def wr l7)
  have s9: "setUint32 (h8 @ ?T) 28 (2 * sampleRate) True = Some (h9 @ ?T)"
    by (simp add: h9_def wr l8)
  have s10: "setUint16 (h9 @ ?T) 32 2 True = Some (h10 @ ?T)"
    by (simp add: h10_def wr l9)
  have s11: "setUint16 (h10 @ ?T) 34 16 True = Some (h11 @ ?T)"
    by (simp add: h11_def wr l10)
  have s12: "writeString (h11 @ ?T) 36 ''data'' = Some (h12 @ ?T)"
    by (simp add: h12_def wr l11 del: writeString.simps)
  have s13: "setUint32 (h12 @ ?T) 40 (int (length pcmData)) True = Some (h13 @ ?T)"
    by (simp add: h13_def wr l12)
  have s14: "setBytes (h13 @ ?T) 44 pcmData = Some (h13 @ pcmData)"
    by (simp add: setBytes_tail l13)
  have "pcmToWav pcmData sampleRate =
          Some \<lparr>blob_bytes = h13 @ pcmData, blob_type = ''audio/wav''\<rparr>"
    unfolding pcmToWav_def Let_def replicate_add h0_def [symmetric]
    by (simp add: s1 s2 s3 s4 s5 s6 s7 s8 s9 s10 s11 s12 s13 s14 del: writeString.simps)
  with l13 show ?thesis
    unfolding h13_def h12_def h11_def h10_def h9_def h8_def h7_def h6_def h5_def h4_def h3_def
      h2_def h1_def h0_def by blast
qed


lemma wavHeader_overwrite:
  "overwrite (overwrite (overwrite (overwrite (overwrite (overwrite (overwrite (overwrite
          (overwrite (overwrite (overwrite (overwrite (overwrite (replicate 44 0)
            0 (charCodes ''RIFF''))
            4 (le_bytes 4 (ToUint 32 (36 + int n))))
            8 (charCodes ''WAVE''))
            12 (charCodes ''fmt ''))
            16 (le_bytes 4 (ToUint 32 16)))
            20 (le_bytes 2 (ToUint 16 1)))
            22 (le_bytes 2 (ToUint 16 1)))
            24 (le_bytes 4 (ToUint 32 sampleRate)))
            28 (le_bytes 4 (ToUint 32 (2 * sampleRate))))
            32 (le_bytes 2 (ToUint 16 2)))
            34 (le_bytes 2 (ToUint 16 16)))
            36 (charCodes ''data''))
            40 (le_bytes 4 (ToUint 32 (int n))) = wavHeader n sampleRate"
  unfolding wavHeader_def zeros_44 le_bytes_4 le_bytes_2 charCodes_def
  by (simp add: overwrite_def)

lemma pcmToWav_bytes:
  "pcmToWav pcmData sampleRate =
     Some \<lparr>blob_bytes = wavHeader (length pcmData) sampleRate @ pcmData,
           blob_type = ''audio/wav''\<rparr>"
  using pcmToWav_run [of pcmData sampleRate] by (simp only: wavHeader_overwrite) blast

lemma le_value_le_bytes: "le_value (le_bytes k v) = v mod 256 ^ k"
proof (induction k arbitrary: v)
  case 0
  then show ?case by simp
next
  case (Suc k)
  have "unat (of_nat (v mod 256) :: byte) = v mod 256"
    by (simp add: unat_of_nat)
  then show ?case
    by (simp add: Suc.IH mod_mult2_eq)
qed

lemma length_wavHeader: "length (wavHeader n r) = 44"
  by (simp add: wavHeader_def length_le_bytes length_charCodes)

lemma getUint_skip:
  "length p \<le> off \<Longrightarrow> getUint k (p @ rest) off = getUint k rest (off - length p)"
  by (simp add: getUint_def)

lemma getUint_here: "getUint k (le_bytes k v @ post) 0 = v mod 256 ^ k"
  by (simp add: getUint_def length_le_bytes le_value_le_bytes)

lemma ToUint_less: "ToUint bits v < 2 ^ bits"
proof -
  have "v mod 2 ^ bits < 2 ^ bits" by simp
  moreover have "0 \<le> v mod 2 ^ bits" by simp
  ultimately have "nat (v mod 2 ^ bits) < nat (2 ^ bits)" by linarith
  then show ?thesis by (simp add: ToUint_def nat_power_eq)
qed

lemma ToUint_mod: "ToUint 32 v mod 256 ^ 4 = ToUint 32 v" "ToUint 16 v mod 256 ^ 2 = ToUint 16 v"
  using ToUint_less [of 32 v] ToUint_less [of 16 v] by simp_all

lemma ToUint_id: "0 \<le> v \<Longrightarrow> v < 2 ^ bits \<Longrightarrow> ToUint bits v = nat v"
  by (simp add: ToUint_def)

lemma wavHeader_fields:
  "getUint 4 (wavHeader n r @ B) 4 = ToUint 32 (36 + int n)"
  "getUint 4 (wavHeader n r @ B) 16 = 16"
  "getUint 2 (wavHeader n r @ B) 20 = 1"
  "getUint 2 (wavHeader n r @ B) 22 = 1"
  "getUint 4 (wavHeader n r @ B) 24 = ToUint 32 r"
  "getUint 4 (wavHeader n r @ B) 28 = ToUint 32 (2 * r)"
  "getUint 2 (wavHeader n r @ B) 32 = 2"
  "getUint 2 (wavHeader n r @ B) 34 = 16"
  "getUint 4 (wavHeader n r @ B) 40 = ToUint 32 (int n)"
  unfolding wavHeader_def
  by (simp_all add: getUint_skip getUint_here length_le_bytes length_charCodes ToUint_mod)
    (simp_all add: ToUint_def)

lemma tagAt_skip:
  "length p \<le> off \<Longrightarrow> tagAt (p @ rest) off tag = tagAt rest (off - length p) tag"
  by (simp add: tagAt_def)

lemma tagAt_here: "tagAt (charCodes tag @ post) 0 tag"
  by (simp add: tagAt_def length_charCodes)

lemma wavHeader_tags:
  "tagAt (wavHeader n r @ B) 0 ''RIFF''"
  "tagAt (wavHeader n r @ B) 8 ''WAVE''"
  "tagAt (wavHeader n r @ B) 12 ''fmt ''"
  "tagAt (wavHeader n r @ B) 36 ''data''"
  unfolding wavHeader_def
  by (simp_all add: tagAt_skip tagAt_here length_le_bytes length_charCodes)

lemma readWav_wavHeader:
  "readWav (wavHeader n r @ B) =
     (if 44 + ToUint 32 (int n) \<le> 44 + length B
      then Some (ToUint 32 r, take (ToUint 32 (int n)) B) else None)"
  by (simp add: readWav_def wavHeader_tags wavHeader_fields length_wavHeader)

text \<open>
  C1. For every PCM buffer \<open>B\<close> with \<open>36 + |B| < 2^32\<close> and every integer sample rate
  \<open>R\<close> with \<open>0 \<le> R < 2^31\<close>, \<^verbatim>\<open>pcmToWav\<close> returns (it does not throw) a blob of type
  \<^verbatim>\<open>audio/wav\<close> whose bytes are 44 header bytes followed by \<open>B\<close> unchanged; read as
  little-endian numbers the header holds \<open>36 + |B|\<close> at offset 4, the channel count 1 at
  offset 22, \<open>R\<close> at offset 24, the byte rate \<open>2 R\<close> at offset 28, the block alignment 2 at
  offset 32, 16 bits per sample at offset 34 and \<open>|B|\<close> at offset 40; and reading the
  container back gives exactly \<open>R\<close> and \<open>B\<close>. The bounds are needed: the fields are 32
  bits wide and the setters reduce a larger value modulo \<open>2^32\<close>.
\<close>

theorem pcmToWav_container:
  assumes size: "36 + length B < 2 ^ 32" and nonneg: "0 \<le> R" and rate: "R < 2 ^ 31"
  shows "\<exists>hdr. pcmToWav B R = Some \<lparr>blob_bytes = hdr @ B, blob_type = ''audio/wav''\<rparr> \<and>
           length hdr = 44 \<and>
           getUint 4 (hdr @ B) 4 = 36 + length B \<and>
           getUint 2 (hdr @ B) 22 = 1 \<and>
           getUint 4 (hdr @ B) 24 = nat R \<and>
           getUint 4 (hdr @ B) 28 = nat (R * 2) \<and>
           getUint 2 (hdr @ B) 32 = 2 \<and>
           getUint 2 (hdr @ B) 34 = 16 \<and>
           getUint 4 (hdr @ B) 40 = length B \<and>
           readWav (hdr @ B) = Some (nat R, B)"
proof -
  let ?hdr = "wavHeader (length B) R"
  have size': "length B + 36 < 4294967296" using size by simp
  have rate': "R < 2147483648" using rate by simp
  have n36: "ToUint 32 (36 + int (length B)) = 36 + length B"
  proof -
    have "(36 + int (length B)) mod 2 ^ 32 = 36 + int (length B)"
      using size' by (intro mod_pos_pos_trivial) simp_all
    then show ?thesis by (simp add: ToUint_def)
  qed
  have n: "ToUint 32 (int (length B)) = length B"
  proof -
    have "int (length B) mod 2 ^ 32 = int (length B)"
      using size' by (intro mod_pos_pos_trivial) simp_all
    then show ?thesis by (simp add: ToUint_def)
  qed
  have r: "ToUint 32 R = nat R"
  proof -
    have "R mod 2 ^ 32 = R"
      using nonneg rate' by (intro mod_pos_pos_trivial) simp_all
    then show ?thesis by (simp only: ToUint_def)
  qed
  have r2: "ToUint 32 (2 * R) = nat (R * 2)"
  proof -
    have "(2 * R) mod 2 ^ 32 = 2 * R"
      using nonneg rate' by (intro mod_pos_pos_trivial) simp_all
    then show ?thesis by (simp only: ToUint_def mult.commute)
  qed
  have "readWav (?hdr @ B) = Some (nat R, B)"
    by (simp add: readWav_wavHeader n r)
  then show ?thesis
    using pcmToWav_bytes [of B R] length_wavHeader [of "length B" R]
      wavHeader_fields [of "length B" R B]
    by (intro exI [of _ ?hdr]) (simp add: n36 n r r2)
qed

theorem pcmToWav_container_witness:
  "36 + length [1, 2, 3, 4 :: byte] < (2 :: nat) ^ 32 \<and> (0 :: int) \<le> 24000 \<and> (24000 :: int) < 2 ^ 31 \<and>
   (\<exists>hdr. pcmToWav [1, 2, 3, 4] 24000 =
            Some \<lparr>blob_bytes = hdr @ [1, 2, 3, 4], blob_type = ''audio/wav''\<rparr> \<and>
          length hdr = 44 \<and>
          getUint 4 (hdr @ [1, 2, 3, 4]) 24 = 24000 \<and>
          getUint 4 (hdr @ [1, 2, 3, 4]) 28 = 48000 \<and>
          getUint 4 (hdr @ [1, 2, 3, 4]) 40 = 4 \<and>
          readWav (hdr @ [1, 2, 3, 4]) = Some (24000, [1, 2, 3, 4]))"
proof -
  have h1: "36 + length [1, 2, 3, 4 :: byte] < (2 :: nat) ^ 32" by simp
  have h2: "(0 :: int) \<le> 24000" and h3: "(24000 :: int) < 2 ^ 31" by simp_all
  from pcmToWav_container [OF h1 h2 h3] h1 show ?thesis by auto
qed

text \<open>
  Without the bounds the statement fails, because a value that does not fit its 32-bit
  field is stored modulo \<open>2^32\<close>: at \<open>R = 2^31\<close> the byte rate \<open>2^32\<close> is stored as 0;
  at \<open>R = 2^32 + 24000\<close> the container reads back with the rate 24000; and for a buffer
  of \<open>2^32 - 36\<close> bytes the RIFF chunk size \<open>2^32\<close> is stored as 0.
\<close>

theorem pcmToWav_every_rate_counterexample:
  "map_option (\<lambda>b. getUint 4 (blob_bytes b) 28) (pcmToWav [1, 2] (2 ^ 31)) = Some 0 \<and>
   map_option (\<lambda>b. readWav (blob_bytes b)) (pcmToWav [1, 2] (2 ^ 32 + 24000))
     = Some (Some (24000, [1, 2])) \<and>
   map_option (\<lambda>b. getUint 4 (blob_bytes b) 4) (pcmToWav (replicate (2 ^ 32 - 36) 0) 24000)
     = Some 0"
proof -
  define big :: "byte list" where "big = replicate (2 ^ 32 - 36) 0"
  have len: "length big = 2 ^ 32 - 36" by (simp add: big_def)
  have "ToUint 32 (36 + int (length big)) = 0"
    unfolding len by (simp add: ToUint_def)
  then have "map_option (\<lambda>b. getUint 4 (blob_bytes b) 4) (pcmToWav big 24000) = Some 0"
    by (simp add: pcmToWav_bytes wavHeader_fields)
  moreover have "map_option (\<lambda>b. getUint 4 (blob_bytes b) 28) (pcmToWav [1, 2] (2 ^ 31)) = Some 0"
    by (simp add: pcmToWav_bytes wavHeader_fields ToUint_def)
  moreover have "map_option (\<lambda>b. readWav (blob_bytes b)) (pcmToWav [1, 2] (2 ^ 32 + 24000))
     = Some (Some (24000, [1, 2]))"
    by (simp add: pcmToWav_bytes readWav_wavHeader ToUint_def)
  ultimately show ?thesis unfolding big_def by blast
qed

section \<open>Properties of transcript highlighting\<close>

lemma transcript_example:
  "transcriptData (Some ''Hello world\<newline>Second line'') =
     \<lparr>paragraphs =
        [\<lparr>p_text = ''Hello world'', p_words = [''Hello'', ''world''], p_start = 0, p_end = 2\<rparr>,
         \<lparr>p_text = ''Second line'', p_words = [''Second'', ''line''], p_start = 2, p_end = 4\<rparr>],
      totalWords = 4\<rparr>"
  by (simp add: transcriptData_def trim_def isWhiteSpace_def Let_def)

text \<open>The total is the number of words of all paragraphs, and the paragraphs' ranges of
  word indices follow one another.\<close>

lemma mapParagraphs_total:
  "snd (mapParagraphs acc ps) = acc + length (concat (map p_words (fst (mapParagraphs acc ps))))"
  by (induction ps arbitrary: acc) (simp_all add: case_prod_beta Let_def)

lemma totalWords_eq:
  "totalWords (transcriptData script) =
     length (concat (map p_words (paragraphs (transcriptData script))))"
  using mapParagraphs_total [of 0]
  by (simp add: transcriptData_def case_prod_beta Let_def split: option.split)

text \<open>
  The word count of the transcript is the number of words of the script: line breaks are
  white space, blank paragraphs have no words, and the non-empty pieces between runs of
  white space are the words.
\<close>

lemma word_starts_dropWhile:
  "word_starts False (dropWhile isWhiteSpace cs) = word_starts False cs"
  by (induction cs) simp_all

lemma word_starts_blank: "(\<forall>c \<in> set s. isWhiteSpace c) \<Longrightarrow> word_starts b s = 0"
  by (induction s arbitrary: b) simp_all

lemma split_whitespace_not_Nil: "split_whitespace s \<noteq> []"
  by (induction s rule: split_whitespace.induct) (auto split: list.split)

lemma split_whitespace_words:
  "length (filter (\<lambda>w. w \<noteq> []) (split_whitespace s)) = word_starts False s \<and>
   length (filter (\<lambda>w. w \<noteq> []) (tl (split_whitespace s))) = word_starts True s"
proof (induction s rule: split_whitespace.induct)
  case 1
  show ?case by simp
next
  case (2 c cs)
  show ?case
  proof (cases "isWhiteSpace c")
    case True
    with "2.IH"(1) show ?thesis by (simp add: word_starts_dropWhile)
  next
    case False
    obtain piece pieces where sp: "split_whitespace cs = piece # pieces"
      using split_whitespace_not_Nil [of cs] by (cases "split_whitespace cs") auto
    with False "2.IH"(2) show ?thesis by simp
  qed
qed

lemma split_char_not_Nil: "split_char sep s \<noteq> []"
  by (induction s) (auto split: list.split)

lemma split_char_words:
  assumes "isWhiteSpace sep"
  shows "word_starts b s =
     word_starts b (hd (split_char sep s)) +
     sum_list (map (word_starts False) (tl (split_char sep s)))"
proof (induction s arbitrary: b)
  case Nil
  show ?case by simp
next
  case (Cons c cs)
  obtain piece pieces where sp: "split_char sep cs = piece # pieces"
    using split_char_not_Nil [of sep cs] by (cases "split_char sep cs") auto
  show ?case
  proof (cases "c = sep")
    case True
    with assms Cons.IH [of False] sp show ?thesis by simp
  next
    case False
    with Cons.IH [of False] Cons.IH [of True] sp show ?thesis by simp
  qed
qed

lemma trim_blank: "trim p = [] \<Longrightarrow> \<forall>c \<in> set p. isWhiteSpace c"
proof -
  assume "trim p = []"
  then have "dropWhile isWhiteSpace (rev (dropWhile isWhiteSpace p)) = []"
    by (simp add: trim_def)
  then have all: "\<forall>c \<in> set (dropWhile isWhiteSpace p). isWhiteSpace c"
    by (simp add: dropWhile_eq_Nil_conv)
  have "dropWhile isWhiteSpace p = []"
  proof (cases "dropWhile isWhiteSpace p")
    case Nil
    then show ?thesis .
  next
    case (Cons c cs)
    then have "\<not> isWhiteSpace c" using hd_dropWhile [of isWhiteSpace p] by simp
    with all Cons show ?thesis by simp
  qed
  then show ?thesis by (simp add: dropWhile_eq_Nil_conv)
qed

lemma mapParagraphs_words:
  "snd (mapParagraphs acc ps) = acc + sum_list (map (word_starts False) ps)"
  by (induction ps arbitrary: acc)
     (simp_all add: case_prod_beta Let_def split_whitespace_words)

lemma sum_list_filter_zero:
  "(\<And>x. x \<in> set xs \<Longrightarrow> \<not> P x \<Longrightarrow> f x = (0 :: nat)) \<Longrightarrow>
   sum_list (map f (filter P xs)) = sum_list (map f xs)"
  by (induction xs) simp_all

lemma totalWords_countWords:
  "totalWords (transcriptData script) = countWords (case script of None \<Rightarrow> [] | Some s \<Rightarrow> s)"
proof (cases script)
  case None
  then show ?thesis by (simp add: transcriptData_def countWords_def)
next
  case (Some s)
  let ?pieces = "split_char CHR 0x0A s"
  have nl: "isWhiteSpace CHR 0x0A" by (simp add: isWhiteSpace_def)
  have "sum_list (map (word_starts False) (filter (\<lambda>p. trim p \<noteq> []) ?pieces))
      = sum_list (map (word_starts False) ?pieces)"
    by (rule sum_list_filter_zero) (simp add: trim_blank word_starts_blank)
  also have "\<dots> = word_starts False (hd ?pieces) + sum_list (map (word_starts False) (tl ?pieces))"
    using split_char_not_Nil [of "CHR 0x0A" s] by (cases ?pieces) simp_all
  also have "\<dots> = word_starts False s"
    using split_char_words [OF nl, of False s] by simp
  finally show ?thesis
    using Some
    by (simp add: transcriptData_def countWords_def case_prod_beta Let_def mapParagraphs_words)
qed

section \<open>Properties of binary64 rounding\<close>

lemma round_half_even_cases:
  "round_half_even y = \<lfloor>y\<rfloor> \<and> y - of_int \<lfloor>y\<rfloor> \<le> 1 / 2 \<or>
   round_half_even y = \<lfloor>y\<rfloor> + 1 \<and> 1 / 2 \<le> y - of_int \<lfloor>y\<rfloor>"
  by (auto simp: round_half_even_def Let_def)

lemma round_half_even_int: "round_half_even (of_int k) = k"
  by (simp add: round_half_even_def)

lemma round_half_even_error: "\<bar>of_int (round_half_even y) - y\<bar> \<le> 1 / 2"
proof -
  have "of_int \<lfloor>y\<rfloor> \<le> y" and "y < of_int \<lfloor>y\<rfloor> + 1" by linarith+
  with round_half_even_cases [of y] show ?thesis by auto
qed

lemma round_half_even_mono:
  assumes "y \<le> z"
  shows "round_half_even y \<le> round_half_even z"
proof -
  from assms have fl: "\<lfloor>y\<rfloor> \<le> \<lfloor>z\<rfloor>" by (rule floor_mono)
  show ?thesis
  proof (cases "\<lfloor>y\<rfloor> = \<lfloor>z\<rfloor>")
    case False
    with fl have "\<lfloor>y\<rfloor> + 1 \<le> \<lfloor>z\<rfloor>" by simp
    with round_half_even_cases [of y] round_half_even_cases [of z] show ?thesis by auto
  next
    case True
    let ?n = "\<lfloor>z\<rfloor>"
    have d: "y - of_int ?n \<le> z - of_int ?n" using assms by simp
    show ?thesis
      using d True by (auto simp: round_half_even_def Let_def)
  qed
qed

lemma round_half_even_ge: "of_int k \<le> y \<Longrightarrow> k \<le> round_half_even y"
  using round_half_even_mono [of "of_int k" y] by (simp add: round_half_even_int)

lemma round_half_even_le: "y \<le> of_int k \<Longrightarrow> round_half_even y \<le> k"
  using round_half_even_mono [of y "of_int k"] by (simp add: round_half_even_int)

text \<open>The exponent brackets the number, and grows with it.\<close>

lemma exponent64_upper: "0 < x \<Longrightarrow> x < 2 powr (of_int (exponent64 x) + 1)"
proof -
  assume x: "0 < x"
  then have "x < 2 powr (of_int \<lfloor>log 2 x\<rfloor> + 1)"
    using floor_log_eq_powr_iff [of x 2 "\<lfloor>log 2 x\<rfloor>"] by simp
  also have "\<dots> \<le> 2 powr (of_int (exponent64 x) + 1)"
    using x by (intro powr_mono) (simp_all add: exponent64_def)
  finally show ?thesis .
qed

lemma exponent64_lower: "0 < x \<Longrightarrow> - 1022 < exponent64 x \<Longrightarrow> 2 powr (of_int (exponent64 x)) \<le> x"
proof -
  assume x: "0 < x" and "- 1022 < exponent64 x"
  then have "exponent64 x = \<lfloor>log 2 x\<rfloor>" by (simp add: exponent64_def max_def split: if_splits)
  then show ?thesis
    using x floor_log_eq_powr_iff [of x 2 "\<lfloor>log 2 x\<rfloor>"] by simp
qed

lemma exponent64_mono: "0 < x \<Longrightarrow> x \<le> y \<Longrightarrow> exponent64 x \<le> exponent64 y"
proof -
  assume "0 < x" and "x \<le> y"
  then have "log 2 x \<le> log 2 y" by simp
  then have "\<lfloor>log 2 x\<rfloor> \<le> \<lfloor>log 2 y\<rfloor>" by (rule floor_mono)
  with \<open>0 < x\<close> \<open>x \<le> y\<close> show ?thesis by (simp add: exponent64_def)
qed

lemma exponent64_le:
  assumes "0 < x" and "x \<le> 2 powr (of_int m)" and "- 1022 \<le> m"
  shows "exponent64 x \<le> m"
proof -
  from assms have "log 2 x \<le> of_int m"
    by (simp add: log_le_iff)
  then have "\<lfloor>log 2 x\<rfloor> \<le> m" by (simp add: floor_le_iff)
  with assms show ?thesis by (simp add: exponent64_def)
qed

lemma ulp64_positive: "0 < ulp64 x"
  by (simp add: ulp64_def)

lemma binary64_pos_eq: "0 < x \<Longrightarrow> binary64 x = of_int (round_half_even (x / ulp64 x)) * ulp64 x"
  by (simp add: binary64_def)

text \<open>Rounding keeps a positive number between the powers of two around it.\<close>

lemma ulp64_scale:
  "2 powr (of_int (exponent64 x) + 1) / ulp64 x = 2 ^ 53"
  "2 powr (of_int (exponent64 x)) / ulp64 x = 2 ^ 52"
  "2 ^ 53 * ulp64 x = 2 powr (of_int (exponent64 x) + 1)"
  "2 ^ 52 * ulp64 x = 2 powr (of_int (exponent64 x))"
proof -
  let ?e = "real_of_int (exponent64 x)"
  have a: "2 powr (?e + 1) / 2 powr (?e - 52) = (2 :: real) powr ((?e + 1) - (?e - 52))"
    by (rule powr_diff [symmetric])
  have b: "2 powr ?e / 2 powr (?e - 52) = (2 :: real) powr (?e - (?e - 52))"
    by (rule powr_diff [symmetric])
  have p53: "(2 :: real) powr 53 = 2 ^ 53" and p52: "(2 :: real) powr 52 = 2 ^ 52"
    by simp_all
  show s53: "2 powr (?e + 1) / ulp64 x = 2 ^ 53"
    unfolding ulp64_def a using p53 by simp
  show s52: "2 powr ?e / ulp64 x = 2 ^ 52"
    unfolding ulp64_def b using p52 by simp
  have pos: "ulp64 x \<noteq> 0" by (simp add: ulp64_def)
  show "2 ^ 53 * ulp64 x = 2 powr (?e + 1)"
    using s53 pos by (simp add: field_simps)
  show "2 ^ 52 * ulp64 x = 2 powr ?e"
    using s52 pos by (simp add: field_simps)
qed

lemma binary64_upper: 
  assumes "0 < x"
  shows "binary64 x \<le> 2 powr (of_int (exponent64 x) + 1)"
proof -
  have "x / ulp64 x \<le> 2 powr (of_int (exponent64 x) + 1) / ulp64 x"
    using exponent64_upper [OF assms] ulp64_positive [of x] by (simp add: divide_right_mono)
  then have "x / ulp64 x \<le> real_of_int (2 ^ 53)"
    by (simp only: ulp64_scale) simp
  then have "round_half_even (x / ulp64 x) \<le> 2 ^ 53"
    by (rule round_half_even_le)
  then have "real_of_int (round_half_even (x / ulp64 x)) \<le> real_of_int (2 ^ 53)"
    by (simp only: of_int_le_iff)
  then have "real_of_int (round_half_even (x / ulp64 x)) \<le> 2 ^ 53" by simp
  then have "real_of_int (round_half_even (x / ulp64 x)) * ulp64 x \<le> 2 ^ 53 * ulp64 x"
    using ulp64_positive [of x] by (intro mult_right_mono) simp_all
  then show ?thesis by (simp only: ulp64_scale binary64_pos_eq [OF assms])
qed

lemma binary64_lower:
  assumes "0 < x" and "- 1022 < exponent64 x"
  shows "2 powr (of_int (exponent64 x)) \<le> binary64 x"
proof -
  have "2 powr (of_int (exponent64 x)) / ulp64 x \<le> x / ulp64 x"
    using exponent64_lower [OF assms] ulp64_positive [of x] by (simp add: divide_right_mono)
  then have "real_of_int (2 ^ 52) \<le> x / ulp64 x"
    by (simp only: ulp64_scale) simp
  then have "2 ^ 52 \<le> round_half_even (x / ulp64 x)"
    by (rule round_half_even_ge)
  then have "real_of_int (2 ^ 52) \<le> real_of_int (round_half_even (x / ulp64 x))"
    by (simp only: of_int_le_iff)
  then have "2 ^ 52 \<le> real_of_int (round_half_even (x / ulp64 x))" by simp
  then have "2 ^ 52 * ulp64 x \<le> real_of_int (round_half_even (x / ulp64 x)) * ulp64 x"
    using ulp64_positive [of x] by (intro mult_right_mono) simp_all
  then show ?thesis by (simp only: ulp64_scale binary64_pos_eq [OF assms(1)])
qed

lemma binary64_nonneg: "0 \<le> x \<Longrightarrow> 0 \<le> binary64 x"
proof (cases "x = 0")
  case True
  then show ?thesis by (simp add: binary64_def)
next
  case False
  assume "0 \<le> x"
  with False have x: "0 < x" by simp
  then have "0 \<le> x / ulp64 x" using ulp64_positive [of x] by simp
  then have "0 \<le> round_half_even (x / ulp64 x)"
    by (intro round_half_even_ge) simp
  then show ?thesis using ulp64_positive [of x] by (simp add: binary64_pos_eq x)
qed

text \<open>Binary64 rounding is monotone on the non-negative numbers.\<close>

lemma binary64_mono:
  assumes "0 \<le> x" and "x \<le> y"
  shows "binary64 x \<le> binary64 y"
proof (cases "x = 0")
  case True
  with assms binary64_nonneg [of y] show ?thesis by (simp add: binary64_def)
next
  case False
  with assms have x: "0 < x" and y: "0 < y" by simp_all
  have e: "exponent64 x \<le> exponent64 y" using x assms(2) by (rule exponent64_mono)
  show ?thesis
  proof (cases "exponent64 x = exponent64 y")
    case True
    then have u: "ulp64 x = ulp64 y" by (simp add: ulp64_def)
    have "x / ulp64 y \<le> y / ulp64 y"
      using assms(2) ulp64_positive [of y] by (simp add: divide_right_mono)
    then have "round_half_even (x / ulp64 y) \<le> round_half_even (y / ulp64 y)"
      by (rule round_half_even_mono)
    then have "of_int (round_half_even (x / ulp64 y)) * ulp64 y
        \<le> of_int (round_half_even (y / ulp64 y)) * ulp64 y"
      using ulp64_positive [of y] by (simp add: mult_right_mono)
    then show ?thesis by (simp add: binary64_pos_eq x y u)
  next
    case False
    with e have less: "exponent64 x + 1 \<le> exponent64 y" by simp
    then have "- 1022 < exponent64 y" by (simp add: exponent64_def)
    with y have "2 powr (of_int (exponent64 y)) \<le> binary64 y" by (rule binary64_lower)
    moreover have "(2 :: real) powr (of_int (exponent64 x) + 1) \<le> 2 powr (of_int (exponent64 y))"
      using less by (intro powr_mono) simp_all
    ultimately show ?thesis using binary64_upper [OF x] by linarith
  qed
qed

text \<open>The error of rounding is at most half a unit in the last place.\<close>

lemma binary64_error_ulp: "0 < x \<Longrightarrow> \<bar>binary64 x - x\<bar> \<le> ulp64 x / 2"
proof -
  assume x: "0 < x"
  let ?r = "real_of_int (round_half_even (x / ulp64 x))"
  have "(?r - x / ulp64 x) * ulp64 x = ?r * ulp64 x - x"
    using ulp64_positive [of x] by (simp add: left_diff_distrib)
  then have "\<bar>?r * ulp64 x - x\<bar> = \<bar>?r - x / ulp64 x\<bar> * \<bar>ulp64 x\<bar>"
    by (simp only: abs_mult [symmetric])
  then have "\<bar>binary64 x - x\<bar> = \<bar>?r - x / ulp64 x\<bar> * ulp64 x"
    using ulp64_positive [of x] by (simp add: binary64_pos_eq x)
  also have "\<dots> \<le> 1 / 2 * ulp64 x"
    using round_half_even_error [of "x / ulp64 x"] ulp64_positive [of x]
    by (intro mult_right_mono) simp_all
  finally show ?thesis by simp
qed

lemma binary64_error:
  assumes "0 \<le> x" and "x \<le> 2 powr (of_int m)" and "- 1022 \<le> m"
  shows "\<bar>binary64 x - x\<bar> \<le> 2 powr (of_int m - 53)"
proof (cases "x = 0")
  case True
  then show ?thesis by (simp add: binary64_def)
next
  case False
  with assms have x: "0 < x" by simp
  have "exponent64 x \<le> m" using x assms(2) assms(3) by (rule exponent64_le)
  then have "ulp64 x \<le> 2 powr (of_int m - 52)"
    unfolding ulp64_def by (intro powr_mono) simp_all
  then have "ulp64 x / 2 \<le> 2 powr (of_int m - 52) / 2" by simp
  also have "\<dots> = 2 powr (of_int m - 53)"
  proof -
    have "(2 :: real) powr (real_of_int m - 52 - 1) = 2 powr (real_of_int m - 52) / 2 powr 1"
      by (rule powr_diff)
    then show ?thesis by simp
  qed
  finally show ?thesis using binary64_error_ulp [OF x] by linarith
qed

text \<open>Natural numbers below \<open>2^53\<close>, and one half, are binary64 values: rounding leaves
  them as they are.\<close>

lemma nat_below_53: "k < 2 ^ 53 \<Longrightarrow> real k < 2 ^ 53"
proof -
  assume "k < 2 ^ 53"
  then have "real k < real (2 ^ 53)" by (simp only: of_nat_less_iff)
  then show ?thesis by simp
qed

lemma exponent64_nat:
  assumes "0 < k" and "k < 2 ^ 53"
  shows "0 \<le> exponent64 (real k)" and "exponent64 (real k) \<le> 52"
proof -
  have x: "0 < real k" and one: "1 \<le> real k" using assms(1) by simp_all
  have "real k < 2 powr 53" using nat_below_53 [OF assms(2)] by simp
  then have "log 2 (real k) < 53"
    using x by (simp only: log_less_iff [of 2 "real k" 53]; simp)
  then have up: "\<lfloor>log 2 (real k)\<rfloor> \<le> 52" by (simp add: floor_le_iff)
  have "0 \<le> log 2 (real k)" using one by simp
  then have low: "0 \<le> \<lfloor>log 2 (real k)\<rfloor>" by simp
  have abs: "\<bar>real k\<bar> = real k" by simp
  show "0 \<le> exponent64 (real k)" unfolding exponent64_def abs using low by simp
  show "exponent64 (real k) \<le> 52" unfolding exponent64_def abs using up by simp
qed

lemma ulp64_nat:
  assumes "0 < k" and "k < 2 ^ 53"
  shows "ulp64 (real k) = 1 / 2 ^ nat (52 - exponent64 (real k))"
proof -
  let ?e = "exponent64 (real k)"
  have "real_of_int ?e - 52 = - real (nat (52 - ?e))"
    using exponent64_nat [OF assms] by simp
  then have "ulp64 (real k) = 2 powr (- real (nat (52 - ?e)))" by (simp only: ulp64_def)
  also have "\<dots> = 1 / 2 powr (real (nat (52 - ?e)))" by (rule powr_minus_divide)
  also have "\<dots> = 1 / 2 ^ nat (52 - ?e)" by (simp only: powr_realpow zero_less_numeral)
  finally show ?thesis .
qed

lemma binary64_nat:
  assumes "k < 2 ^ 53"
  shows "binary64 (real k) = real k"
proof (cases "k = 0")
  case True
  then show ?thesis by (simp add: binary64_def)
next
  case False
  then have k: "0 < k" by simp
  then have x: "0 < real k" by simp
  define j where "j = nat (52 - exponent64 (real k))"
  have u: "ulp64 (real k) = 1 / 2 ^ j" unfolding j_def using k assms by (rule ulp64_nat)
  have "real k / (1 / 2 ^ j) = real_of_int (int k * 2 ^ j)" by simp
  then have "round_half_even (real k / (1 / 2 ^ j)) = int k * 2 ^ j"
    by (simp only: round_half_even_int)
  then have "binary64 (real k) = real_of_int (int k * 2 ^ j) * (1 / 2 ^ j)"
    by (simp only: binary64_pos_eq [OF x] u)
  then show ?thesis by simp
qed

lemma binary64_half: "binary64 (1 / 2) = 1 / 2"
proof -
  have "(2 :: real) powr (- 1) = 1 / 2"
    using powr_minus_divide [of "2 :: real" 1] by simp
  then have "\<lfloor>log 2 (1 / 2 :: real)\<rfloor> = - 1"
    using floor_log_eq_powr_iff [of "1 / 2 :: real" 2 "- 1"] by simp
  then have "exponent64 (1 / 2) = - 1" by (simp add: exponent64_def)
  then have "ulp64 (1 / 2) = 2 powr (- 53)" by (simp add: ulp64_def)
  also have "\<dots> = 1 / 2 powr 53" by (rule powr_minus_divide)
  also have "\<dots> = 1 / 2 ^ 53" by simp
  finally have u: "ulp64 (1 / 2) = 1 / 2 ^ 53" .
  have "(1 / 2 :: real) / (1 / 2 ^ 53) = real_of_int (2 ^ 52)" by simp
  then have "round_half_even ((1 / 2 :: real) / (1 / 2 ^ 53)) = 2 ^ 52"
    by (simp only: round_half_even_int)
  then have "binary64 (1 / 2) = real_of_int (2 ^ 52) * (1 / 2 ^ 53)"
    using binary64_pos_eq [of "1 / 2"] by (simp only: u; simp)
  then show ?thesis by simp
qed

text \<open>Rounding a positive number whose exponent is known.\<close>

lemma binary64_positive:
  assumes "0 < x" and "- 1022 \<le> e" and "2 powr (of_int e) \<le> x" and "x < 2 powr (of_int e + 1)"
  shows "binary64 x = of_int (round_half_even (x / 2 powr (of_int e - 52))) * 2 powr (of_int e - 52)"
proof -
  have "\<lfloor>log 2 x\<rfloor> = e"
    using assms by (simp add: floor_log_eq_powr_iff)
  with assms have "exponent64 x = e" by (simp add: exponent64_def)
  then have "ulp64 x = 2 powr (of_int e - 52)" by (simp add: ulp64_def)
  then show ?thesis by (simp only: binary64_pos_eq [OF assms(1)])
qed

lemma binary64_29_percent: "binary64 (29 / 100) = 5224175567749775 / 18014398509481984"
proof -
  have u: "(2 :: real) powr (of_int (- 2) - 52) = 1 / 18014398509481984"
    by (simp add: powr_minus_divide)
  have lo: "(2 :: real) powr (of_int (- 2)) \<le> 29 / 100"
    by (simp add: powr_minus_divide)
  have hi: "(29 / 100 :: real) < 2 powr (of_int (- 2) + 1)"
    by (simp add: powr_minus_divide)
  have "\<lfloor>(29 / 100 :: real) / (1 / 18014398509481984)\<rfloor> = 5224175567749775"
    by (rule floor_unique) simp_all
  then have r: "round_half_even ((29 / 100 :: real) / (1 / 18014398509481984)) = 5224175567749775"
    by (simp add: round_half_even_def Let_def)
  have "binary64 (29 / 100) = of_int (round_half_even ((29 / 100) / 2 powr (of_int (- 2) - 52)))
      * 2 powr (of_int (- 2) - 52)"
    by (rule binary64_positive [OF _ _ lo hi]; simp)
  then show ?thesis by (simp only: u r; simp)
qed

lemma binary64_product:
  "binary64 (5224175567749775 / 18014398509481984 * 100) = 8162774324609023 / 281474976710656"
proof -
  let ?x = "5224175567749775 / 18014398509481984 * 100 :: real"
  have u: "(2 :: real) powr (of_int 4 - 52) = 1 / 281474976710656"
    by (simp add: powr_minus_divide)
  have lo: "(2 :: real) powr (of_int 4) \<le> ?x" by simp
  have hi: "?x < 2 powr (of_int 4 + 1)" by simp
  have "\<lfloor>?x / (1 / 281474976710656)\<rfloor> = 8162774324609023"
    by (rule floor_unique) simp_all
  then have r: "round_half_even (?x / (1 / 281474976710656)) = 8162774324609023"
    by (simp add: round_half_even_def Let_def)
  have "binary64 ?x = of_int (round_half_even (?x / 2 powr (of_int 4 - 52)))
      * 2 powr (of_int 4 - 52)"
    by (rule binary64_positive [OF _ _ lo hi]; simp)
  then show ?thesis by (simp only: u r; simp)
qed

text \<open>
  The index under any rounding \<open>fl\<close> that is monotone on the non-negative numbers, leaves
  0, 1 and the word count unchanged, and errs by at most \<open>2^-53\<close> up to 1 and by at most
  \<open>2^-21\<close> up to \<open>2^32\<close>: it is within \<open>2^-20\<close> of the exact product before the floor is
  taken.
\<close>

lemma currentWordIndex_rounding:
  fixes fl :: "real \<Rightarrow> real" and N :: nat
  assumes mono: "\<And>x y. 0 \<le> x \<Longrightarrow> x \<le> y \<Longrightarrow> fl x \<le> fl y"
    and zero: "fl 0 = 0" and one: "fl 1 = 1" and count: "fl (real N) = real N"
    and err1: "\<And>x. 0 \<le> x \<Longrightarrow> x \<le> 1 \<Longrightarrow> \<bar>fl x - x\<bar> \<le> 1 / 2 ^ 53"
    and err2: "\<And>x. 0 \<le> x \<Longrightarrow> x \<le> 2 ^ 32 \<Longrightarrow> \<bar>fl x - x\<bar> \<le> 1 / 2 ^ 21"
    and size: "N < 2 ^ 32"
  shows "0 \<le> p \<Longrightarrow> p \<le> q \<Longrightarrow> currentWordIndex fl p N \<le> currentWordIndex fl q N"
    and "currentWordIndex fl 0 N = 0"
    and "currentWordIndex fl 100 N = int N"
    and "0 \<le> p \<Longrightarrow> p \<le> 100 \<Longrightarrow>
           0 \<le> currentWordIndex fl p N \<and> currentWordIndex fl p N \<le> int N \<and>
           \<lfloor>p / 100 * real N - 1 / 2 ^ 20\<rfloor> \<le> currentWordIndex fl p N \<and>
           currentWordIndex fl p N \<le> \<lfloor>p / 100 * real N + 1 / 2 ^ 20\<rfloor>"
proof -
  have fraction: "0 \<le> fl (a / 100)" if "0 \<le> a" for a
    using mono [of 0 "a / 100"] that zero by simp
  have order: "currentWordIndex fl a N \<le> currentWordIndex fl b N" if "0 \<le> a" "a \<le> b" for a b
  proof -
    from that have "fl (a / 100) \<le> fl (b / 100)" by (intro mono) simp_all
    then have "fl (a / 100) * real N \<le> fl (b / 100) * real N"
      by (rule mult_right_mono) simp
    moreover have "0 \<le> fl (a / 100) * real N" using fraction [OF that(1)] by simp
    ultimately have "fl (fl (a / 100) * real N) \<le> fl (fl (b / 100) * real N)"
      by (intro mono)
    then show ?thesis unfolding currentWordIndex_def by (rule floor_mono)
  qed
  show first: "currentWordIndex fl 0 N = 0"
    by (simp add: currentWordIndex_def zero)
  show last: "currentWordIndex fl 100 N = int N"
    by (simp add: currentWordIndex_def one count)
  show "currentWordIndex fl p N \<le> currentWordIndex fl q N" if "0 \<le> p" "p \<le> q"
    using that by (rule order)
  show "0 \<le> currentWordIndex fl p N \<and> currentWordIndex fl p N \<le> int N \<and>
           \<lfloor>p / 100 * real N - 1 / 2 ^ 20\<rfloor> \<le> currentWordIndex fl p N \<and>
           currentWordIndex fl p N \<le> \<lfloor>p / 100 * real N + 1 / 2 ^ 20\<rfloor>"
    if p: "0 \<le> p" "p \<le> 100"
  proof -
    let ?f = "fl (p / 100)" and ?v = "p / 100 * real N"
    let ?y = "fl (?f * real N)"
    have range: "0 \<le> currentWordIndex fl p N \<and> currentWordIndex fl p N \<le> int N"
      using order [of 0 p] order [of p 100] p first last by simp
    from size have "N \<le> 2 ^ 32" by simp
    then have "real N \<le> real (2 ^ 32)" by (simp only: of_nat_le_iff)
    then have n: "real N \<le> 2 ^ 32" by simp
    have f0: "0 \<le> ?f" using p(1) by (rule fraction)
    have "?f \<le> fl 1" using p by (intro mono) simp_all
    then have f1: "?f \<le> 1" by (simp add: one)
    have ef: "\<bar>?f - p / 100\<bar> \<le> 1 / 2 ^ 53"
      using p by (intro err1) simp_all
    have "?f * real N - ?v = (?f - p / 100) * real N"
      by (simp add: left_diff_distrib)
    then have "\<bar>?f * real N - ?v\<bar> = \<bar>?f - p / 100\<bar> * \<bar>real N\<bar>"
      by (simp only: abs_mult)
    also have "\<dots> = \<bar>?f - p / 100\<bar> * real N" by simp
    also have "\<dots> \<le> 1 / 2 ^ 53 * 2 ^ 32"
      using ef n by (intro mult_mono) simp_all
    finally have e1: "\<bar>?f * real N - ?v\<bar> \<le> 1 / 2 ^ 21" by simp
    have "0 \<le> ?f * real N" using f0 by simp
    moreover have "?f * real N \<le> 1 * 2 ^ 32"
      using f0 f1 n by (intro mult_mono) simp_all
    ultimately have e2: "\<bar>?y - ?f * real N\<bar> \<le> 1 / 2 ^ 21"
      by (intro err2) simp_all
    have triangle: "\<bar>c - b\<bar> \<le> 2 * e" if "\<bar>a - b\<bar> \<le> e" "\<bar>c - a\<bar> \<le> e" for a b c e :: real
      using that by linarith
    have twice: "2 * (1 / 2 ^ 21) = (1 / 2 ^ 20 :: real)" by simp
    have "\<bar>?y - ?v\<bar> \<le> 2 * (1 / 2 ^ 21)" using e1 e2 by (rule triangle)
    then have "\<bar>?y - ?v\<bar> \<le> 1 / 2 ^ 20" by (simp only: twice)
    then have lo: "?v - 1 / 2 ^ 20 \<le> ?y" and hi: "?y \<le> ?v + 1 / 2 ^ 20" by linarith+
    from lo have "\<lfloor>?v - 1 / 2 ^ 20\<rfloor> \<le> \<lfloor>?y\<rfloor>" by (rule floor_mono)
    moreover from hi have "\<lfloor>?y\<rfloor> \<le> \<lfloor>?v + 1 / 2 ^ 20\<rfloor>" by (rule floor_mono)
    ultimately have "\<lfloor>?v - 1 / 2 ^ 20\<rfloor> \<le> currentWordIndex fl p N \<and>
        currentWordIndex fl p N \<le> \<lfloor>?v + 1 / 2 ^ 20\<rfloor>"
      by (simp only: currentWordIndex_def)
    with range show ?thesis by (simp only:)
  qed
qed

text \<open>
  C5. Let \<open>N\<close> be the total number of words of \<^verbatim>\<open>transcriptData\<close> for a script, \<open>N\<close> below
  \<open>2^32\<close>. \<open>N\<close> is the number of maximal runs of characters that are not white space in
  the script, which is what cutting it into paragraphs at line breaks and the paragraphs
  into words at white space leaves. The highlighted index is
  \<^verbatim>\<open>Math.floor((progress / 100) * N)\<close> in binary64 arithmetic, \<^verbatim>\<open>progress / 100\<close> being the
  fraction played. It is non-decreasing in the progress, from 0 percent on; for a
  progress between 0 and 100 percent it lies between 0 and \<open>N\<close>, and with
  \<open>v = progress / 100 * N\<close> in exact arithmetic it lies between \<open>\<lfloor>v - 2^-20\<rfloor>\<close> and
  \<open>\<lfloor>v + 2^-20\<rfloor>\<close>: it differs from \<open>\<lfloor>v\<rfloor>\<close> by at most 1, and it is \<open>\<lfloor>v\<rfloor>\<close> unless \<open>v\<close> is
  within \<open>2^-20\<close> of an integer. It is 0 at 0 percent and \<open>N\<close> at 100 percent. The transcript of the scenario has 4 words, and at 50 percent its
  index is 2.
\<close>

theorem currentWordIndex_binary64:
  fixes script :: "string option" and N :: nat and p q :: real
  assumes words: "N = totalWords (transcriptData script)" and size: "N < 2 ^ 32"
  shows "N = countWords (case script of None \<Rightarrow> [] | Some s \<Rightarrow> s) \<and>
         (0 \<le> p \<and> p \<le> q \<longrightarrow> currentWordIndex binary64 p N \<le> currentWordIndex binary64 q N) \<and>
         (0 \<le> p \<and> p \<le> 100 \<longrightarrow>
            0 \<le> currentWordIndex binary64 p N \<and> currentWordIndex binary64 p N \<le> int N \<and>
            \<lfloor>p / 100 * real N - 1 / 2 ^ 20\<rfloor> \<le> currentWordIndex binary64 p N \<and>
            currentWordIndex binary64 p N \<le> \<lfloor>p / 100 * real N + 1 / 2 ^ 20\<rfloor> \<and>
            \<bar>currentWordIndex binary64 p N - \<lfloor>p / 100 * real N\<rfloor>\<bar> \<le> 1 \<and>
            (\<lfloor>p / 100 * real N - 1 / 2 ^ 20\<rfloor> = \<lfloor>p / 100 * real N + 1 / 2 ^ 20\<rfloor> \<longrightarrow>
               currentWordIndex binary64 p N = \<lfloor>p / 100 * real N\<rfloor>)) \<and>
         currentWordIndex binary64 0 N = 0 \<and>
         currentWordIndex binary64 100 N = int N \<and>
         (script = Some ''Hello world\<newline>Second line'' \<longrightarrow>
            N = 4 \<and> currentWordIndex binary64 50 N = 2)"
proof -
  from size have "N < 2 ^ 53" by simp
  then have count: "binary64 (real N) = real N" by (rule binary64_nat)
  have zero: "binary64 0 = 0" by (simp add: binary64_def)
  have one: "binary64 1 = 1" using binary64_nat [of 1] by simp
  have two: "binary64 2 = 2" using binary64_nat [of 2] by simp
  have err1: "\<bar>binary64 x - x\<bar> \<le> 1 / 2 ^ 53" if "0 \<le> x" "x \<le> 1" for x
    using binary64_error [of x 0] that by (simp add: powr_minus_divide)
  have err2: "\<bar>binary64 x - x\<bar> \<le> 1 / 2 ^ 21" if "0 \<le> x" "x \<le> 2 ^ 32" for x
    using binary64_error [of x 32] that by (simp add: powr_minus_divide)
  note rounding = currentWordIndex_rounding [of binary64 N, OF binary64_mono zero one count err1 err2 size]
  have counted: "N = countWords (case script of None \<Rightarrow> [] | Some s \<Rightarrow> s)"
    by (simp only: words totalWords_countWords)
  have order: "0 \<le> p \<and> p \<le> q \<longrightarrow> currentWordIndex binary64 p N \<le> currentWordIndex binary64 q N"
    using rounding(1) [of p q] by simp
  have range: "0 \<le> currentWordIndex binary64 p N \<and> currentWordIndex binary64 p N \<le> int N \<and>
            \<lfloor>p / 100 * real N - 1 / 2 ^ 20\<rfloor> \<le> currentWordIndex binary64 p N \<and>
            currentWordIndex binary64 p N \<le> \<lfloor>p / 100 * real N + 1 / 2 ^ 20\<rfloor> \<and>
            \<bar>currentWordIndex binary64 p N - \<lfloor>p / 100 * real N\<rfloor>\<bar> \<le> 1 \<and>
            (\<lfloor>p / 100 * real N - 1 / 2 ^ 20\<rfloor> = \<lfloor>p / 100 * real N + 1 / 2 ^ 20\<rfloor> \<longrightarrow>
               currentWordIndex binary64 p N = \<lfloor>p / 100 * real N\<rfloor>)"
    if p: "0 \<le> p" "p \<le> 100"
  proof -
    let ?v = "p / 100 * real N" and ?i = "currentWordIndex binary64 p N"
    have "0 \<le> ?i \<and> ?i \<le> int N \<and> \<lfloor>?v - 1 / 2 ^ 20\<rfloor> \<le> ?i \<and> ?i \<le> \<lfloor>?v + 1 / 2 ^ 20\<rfloor>"
      using p rounding(4) [of p] by simp
    then have bounds: "0 \<le> ?i \<and> ?i \<le> int N" and lo: "\<lfloor>?v - 1 / 2 ^ 20\<rfloor> \<le> ?i"
      and hi: "?i \<le> \<lfloor>?v + 1 / 2 ^ 20\<rfloor>"
      by (simp_all only: simp_thms)
    have "?v - 1 \<le> ?v - 1 / 2 ^ 20" by simp
    then have "\<lfloor>?v - 1\<rfloor> \<le> \<lfloor>?v - 1 / 2 ^ 20\<rfloor>" by (rule floor_mono)
    then have below: "\<lfloor>?v\<rfloor> - 1 \<le> \<lfloor>?v - 1 / 2 ^ 20\<rfloor>" by simp
    have "?v + 1 / 2 ^ 20 \<le> ?v + 1" by simp
    then have "\<lfloor>?v + 1 / 2 ^ 20\<rfloor> \<le> \<lfloor>?v + 1\<rfloor>" by (rule floor_mono)
    then have above: "\<lfloor>?v + 1 / 2 ^ 20\<rfloor> \<le> \<lfloor>?v\<rfloor> + 1" by simp
    have "?v - 1 / 2 ^ 20 \<le> ?v" by simp
    then have under: "\<lfloor>?v - 1 / 2 ^ 20\<rfloor> \<le> \<lfloor>?v\<rfloor>" by (rule floor_mono)
    have "?v \<le> ?v + 1 / 2 ^ 20" by simp
    then have over: "\<lfloor>?v\<rfloor> \<le> \<lfloor>?v + 1 / 2 ^ 20\<rfloor>" by (rule floor_mono)
    from lo hi below above have near: "\<bar>?i - \<lfloor>?v\<rfloor>\<bar> \<le> 1" by linarith
    from lo hi under over
    have same: "\<lfloor>?v - 1 / 2 ^ 20\<rfloor> = \<lfloor>?v + 1 / 2 ^ 20\<rfloor> \<longrightarrow> ?i = \<lfloor>?v\<rfloor>" by linarith
    from bounds lo hi near same show ?thesis by (simp only: simp_thms)
  qed
  have scenario: "N = 4 \<and> currentWordIndex binary64 50 N = 2"
    if "script = Some ''Hello world\<newline>Second line''"
  proof -
    from that words have four: "N = 4" by (simp add: transcript_example)
    have "(50 :: real) / 100 = 1 / 2" by simp
    then have "binary64 (50 / 100) = 1 / 2" by (simp only: binary64_half)
    then have "binary64 (50 / 100) * real (4 :: nat) = 2" by simp
    then have "binary64 (binary64 (50 / 100) * real (4 :: nat)) = 2" by (simp only: two)
    then have "currentWordIndex binary64 50 4 = 2" by (simp only: currentWordIndex_def floor_numeral)
    with four show ?thesis by simp
  qed
  from counted order range rounding(2) rounding(3) scenario show ?thesis by blast
qed

theorem currentWordIndex_binary64_witness:
  "totalWords (transcriptData (Some ''Hello world\<newline>Second line'')) = 4 \<and>
   countWords ''Hello world\<newline>Second line'' = 4 \<and>
   currentWordIndex binary64 30 4 \<le> currentWordIndex binary64 50 4 \<and>
   currentWordIndex binary64 30 4 = 1 \<and>
   currentWordIndex binary64 0 4 = 0 \<and>
   currentWordIndex binary64 100 4 = 4 \<and>
   currentWordIndex binary64 50 4 = 2"
proof -
  have words: "(4 :: nat) = totalWords (transcriptData (Some ''Hello world\<newline>Second line''))"
    by (simp add: transcript_example)
  have size: "(4 :: nat) < 2 ^ 32" by simp
  have below: "\<lfloor>(30 :: real) / 100 * real (4 :: nat) - 1 / 2 ^ 20\<rfloor> = 1"
    by (rule floor_unique) simp_all
  have above: "\<lfloor>(30 :: real) / 100 * real (4 :: nat) + 1 / 2 ^ 20\<rfloor> = 1"
    by (rule floor_unique) simp_all
  have exact: "\<lfloor>(30 :: real) / 100 * real (4 :: nat)\<rfloor> = 1"
    by (rule floor_unique) simp_all
  from currentWordIndex_binary64 [of 4 "Some ''Hello world\<newline>Second line''" 30 50, OF words size]
  show ?thesis by (simp only: below above exact; simp add: transcript_example)
qed

text \<open>
  C5, counterexample. The index is not \<open>\<lfloor>progress / 100 * N\<rfloor>\<close> for every progress: at
  29 percent of a transcript of 100 words \<^verbatim>\<open>29 / 100\<close> rounds to a binary64 value below
  \<open>29/100\<close>, its product with 100 rounds to a value below 29, and the highlighted index
  is 28, whereas \<open>\<lfloor>29 / 100 * 100\<rfloor> = 29\<close>.
\<close>

theorem currentWordIndex_29_percent:
  "currentWordIndex binary64 29 100 = 28 \<and> \<lfloor>(29 :: real) / 100 * real (100 :: nat)\<rfloor> = 29"
proof -
  have "currentWordIndex binary64 29 100 = \<lfloor>binary64 (binary64 (29 / 100) * real 100)\<rfloor>"
    by (simp only: currentWordIndex_def)
  also have "\<dots> = \<lfloor>binary64 (5224175567749775 / 18014398509481984 * 100)\<rfloor>"
    by (simp only: binary64_29_percent of_nat_numeral)
  also have "\<dots> = \<lfloor>8162774324609023 / 281474976710656 :: real\<rfloor>"
    by (simp only: binary64_product)
  also have "\<dots> = 28"
    by (rule floor_unique) simp_all
  finally have "currentWordIndex binary64 29 100 = 28" .
  then show ?thesis by simp
qed

section \<open>Properties of the quiz\<close>

text \<open>Answering every question in turn never throws, ends on the result screen, and the
  score counts the correct answers.\<close>

lemma correctAnswers_Cons:
  "correctAnswers (q # qs) (a # as) =
     (if int a = correctOptionIndex q then 1 else 0) + correctAnswers qs as"
  by (simp add: correctAnswers_def)

lemma takeQuiz_run:
  assumes "currentIndex st + length answers = length questions" and "answers \<noteq> []"
    and "\<not> isAnswered st" and "\<not> showResult st"
  shows "\<exists>st'. takeQuiz questions answers st = Some st' \<and> showResult st' \<and>
           score st' = score st + correctAnswers (drop (currentIndex st) questions) answers"
  using assms
proof (induction answers arbitrary: st)
  case Nil
  then show ?case by simp
next
  case (Cons a rest)
  let ?i = "currentIndex st"
  from Cons.prems have i: "?i < length questions" by simp
  then have q: "js_index questions (int ?i) = Some (questions ! ?i)"
    by (simp add: js_index_def)
  define st1 where "st1 = st\<lparr>selectedOption := Some a, isAnswered := True,
      score := (if int a = correctOptionIndex (questions ! ?i) then score st + 1 else score st)\<rparr>"
  have click: "handleOptionClick questions a st = Some st1"
    using Cons.prems q by (simp add: handleOptionClick_def st1_def)
  have split: "drop ?i questions = questions ! ?i # drop (Suc ?i) questions"
    using i by (simp add: Cons_nth_drop_Suc)
  show ?case
  proof (cases rest)
    case Nil
    with Cons.prems have "\<not> int ?i < int (length questions) - 1" by simp
    then have "handleNext questions st1 = st1\<lparr>showResult := True\<rparr>"
      by (simp add: handleNext_def st1_def)
    with Nil click show ?thesis
      by (simp add: split correctAnswers_Cons st1_def correctAnswers_def)
  next
    case (Cons b rest')
    with Cons.prems have "int ?i < int (length questions) - 1" by simp
    then have next_state: "handleNext questions st1 =
        st1\<lparr>currentIndex := ?i + 1, selectedOption := None, isAnswered := False\<rparr>"
      by (simp add: handleNext_def st1_def)
    let ?st2 = "st1\<lparr>currentIndex := ?i + 1, selectedOption := None, isAnswered := False\<rparr>"
    have "\<exists>st'. takeQuiz questions rest ?st2 = Some st' \<and> showResult st' \<and>
             score st' = score ?st2 + correctAnswers (drop (currentIndex ?st2) questions) rest"
      using Cons.prems Cons by (intro Cons.IH) (simp_all add: st1_def)
    then show ?thesis
      using click next_state by (auto simp: split correctAnswers_Cons st1_def)
  qed
qed

lemma takeQuiz_complete:
  assumes "length answers = length questions" and "questions \<noteq> []"
  shows "\<exists>st. takeQuiz questions answers initialQuizView = Some st \<and> showResult st \<and>
           score st = correctAnswers questions answers"
proof -
  from assms have "answers \<noteq> []" by auto
  with takeQuiz_run [of initialQuizView answers questions] assms show ?thesis
    by (simp add: initialQuizView_def)
qed

text \<open>A click on an option of a question already answered changes nothing.\<close>

lemma handleOptionClick_answered:
  "isAnswered st \<Longrightarrow> handleOptionClick questions idx st = Some st"
  by (simp add: handleOptionClick_def)

text \<open>
  The threshold. \<open>x\<close> is the exact product of the number of questions and the binary64
  value of \<^verbatim>\<open>0.6\<close>, which lies \<open>1 / (5 * 2^53)\<close> below \<open>6/10\<close>. Rounding moves it by at most
  \<open>x / 2^53\<close>, which is far less than the distance \<open>1/5\<close> of \<open>6 n / 10\<close> from the integers
  it is not equal to; where \<open>6 n / 10\<close> is an integer, \<open>x\<close> is just below it and rounds to
  at most that integer.
\<close>

lemma three_fifths_bounds:
  fixes n :: nat
  shows "3 * n \<le> 5 * ((3 * n + 4) div 5)" and "5 * ((3 * n + 4) div 5) \<le> 3 * n + 4"
  by arith+

lemma three_fifths_real:
  fixes n :: nat
  shows "3 * real n \<le> 5 * real ((3 * n + 4) div 5)"
    and "5 * real ((3 * n + 4) div 5) \<le> 3 * real n + 4"
proof -
  have "real (3 * n) \<le> real (5 * ((3 * n + 4) div 5))"
    by (simp only: of_nat_le_iff three_fifths_bounds)
  then show "3 * real n \<le> 5 * real ((3 * n + 4) div 5)" by simp
  have "real (5 * ((3 * n + 4) div 5)) \<le> real (3 * n + 4)"
    by (simp only: of_nat_le_iff three_fifths_bounds)
  then show "5 * real ((3 * n + 4) div 5) \<le> 3 * real n + 4" by simp
qed

lemma ceiling_three_fifths: "\<lceil>6 / 10 * real n\<rceil> = int ((3 * n + 4) div 5)"
proof (rule ceiling_unique)
  show "real_of_int (int ((3 * n + 4) div 5)) - 1 < 6 / 10 * real n"
    using three_fifths_real(2) [of n] by simp
  show "6 / 10 * real n \<le> real_of_int (int ((3 * n + 4) div 5))"
    using three_fifths_real(1) [of n] by simp
qed

lemma pass_threshold:
  fixes fl :: "real \<Rightarrow> real" and n :: nat
  assumes mono: "mono fl"
    and exact: "\<forall>k::nat. k \<le> 2 ^ 32 \<longrightarrow> fl (real k) = real k"
    and err: "\<forall>x. 1 / 2 \<le> x \<and> x \<le> 2 ^ 32 \<longrightarrow> \<bar>fl x - x\<bar> \<le> x / 2 ^ 53"
    and n1: "1 \<le> n" and n2: "n < 2 ^ 32"
  shows "\<lceil>fl (real n * literal_0_6)\<rceil> = int ((3 * n + 4) div 5)"
proof -
  define k where "k = (3 * n + 4) div 5"
  define x where "x = real n * literal_0_6"
  have kn: "3 * n \<le> 5 * k" "5 * k \<le> 3 * n + 4"
    unfolding k_def by (rule three_fifths_bounds)+
  have kr: "3 * real n \<le> 5 * real k" "5 * real k \<le> 3 * real n + 4"
    unfolding k_def by (rule three_fifths_real)+
  have nr: "1 \<le> real n" "real n < 4294967296"
    using n1 n2 by simp_all
  have xn: "x = real n * (5404319552844595 / 9007199254740992)"
    by (simp add: x_def literal_0_6_def)
  have xr: "1 / 2 \<le> x" "x \<le> 2 ^ 32"
    using nr unfolding xn by simp_all
  have p53: "(2 :: real) ^ 53 = 9007199254740992" by simp
  from err xr have "\<bar>fl x - x\<bar> \<le> x / 2 ^ 53" by blast
  then have "\<bar>fl x - x\<bar> \<le> x / 9007199254740992" by (simp only: p53)
  then have e: "fl x \<le> x + x / 9007199254740992" "x - x / 9007199254740992 \<le> fl x"
    by linarith+
  have lower: "real k - 1 < fl x"
    using e(2) kr(2) nr unfolding xn by linarith
  have upper: "fl x \<le> real k"
  proof (cases "3 * n = 5 * k")
    case True
    then have "real (3 * n) = real (5 * k)" by (simp only:)
    then have "3 * real n = 5 * real k" by simp
    then have "x \<le> real k" using nr unfolding xn by linarith
    with mono have "fl x \<le> fl (real k)" by (rule monoD)
    moreover have "k \<le> 2 ^ 32" using kn(2) n2 by simp
    ultimately show ?thesis using exact by simp
  next
    case False
    with kn(1) have "3 * n + 1 \<le> 5 * k" by simp
    then have "real (3 * n + 1) \<le> real (5 * k)" by (simp only: of_nat_le_iff)
    then have "3 * real n + 1 \<le> 5 * real k" by simp
    then show ?thesis using e(1) nr unfolding xn by linarith
  qed
  have "\<lceil>fl x\<rceil> = int k"
    by (rule ceiling_unique) (use lower upper in simp_all)
  then show ?thesis by (simp add: x_def k_def)
qed

text \<open>
  C9. For a quiz of \<open>n \<ge> 1\<close> questions (fewer than \<open>2^32\<close>, as every array) that the user
  answers one by one, the component reaches its result screen and the value it hands to
  \<^verbatim>\<open>onFinish\<close>, and so to \<^verbatim>\<open>handleQuizFinish\<close>, is true exactly when the number of correct
  answers is at least \<open>\<lceil>0.6 n\<rceil>\<close>; for three questions, exactly when at least two answers
  are correct. This holds for every rounding \<open>fl\<close> of the product that is monotone, leaves
  the integers up to \<open>2^32\<close> unchanged and has a relative error of at most \<open>2^-53\<close> between
  \<open>1/2\<close> and \<open>2^32\<close>, as binary64 rounding to nearest does; exact arithmetic is one such
  rounding.
\<close>

theorem quizOutcome_threshold:
  fixes fl :: "real \<Rightarrow> real"
  assumes mono: "mono fl"
    and exact: "\<forall>k::nat. k \<le> 2 ^ 32 \<longrightarrow> fl (real k) = real k"
    and err: "\<forall>x. 1 / 2 \<le> x \<and> x \<le> 2 ^ 32 \<longrightarrow> \<bar>fl x - x\<bar> \<le> x / 2 ^ 53"
    and some: "questions \<noteq> []" and size: "length questions < 2 ^ 32"
    and answers: "length answers = length questions"
  shows "quizOutcome fl questions answers =
           Some (\<lceil>6 / 10 * real (length questions)\<rceil> \<le> int (correctAnswers questions answers)) \<and>
         (length questions = 3 \<longrightarrow>
            quizOutcome fl questions answers = Some (2 \<le> correctAnswers questions answers))"
proof -
  from some have n1: "1 \<le> length questions" by (cases questions) simp_all
  from takeQuiz_complete [OF answers some] obtain st
    where run: "takeQuiz questions answers initialQuizView = Some st"
      and shown: "showResult st" and sc: "score st = correctAnswers questions answers"
    by blast
  have thr: "\<lceil>fl (real (length questions) * literal_0_6)\<rceil> = \<lceil>6 / 10 * real (length questions)\<rceil>"
    by (simp only: pass_threshold [OF mono exact err n1 size] ceiling_three_fifths)
  have out: "quizOutcome fl questions answers =
      Some (\<lceil>6 / 10 * real (length questions)\<rceil> \<le> int (correctAnswers questions answers))"
    by (simp add: quizOutcome_def run shown passed_def sc thr)
  moreover have "\<lceil>6 / 10 * real (length questions)\<rceil> = 2" if "length questions = 3"
    using that by (simp add: ceiling_three_fifths)
  ultimately show ?thesis by auto
qed

theorem quizOutcome_threshold_witness:
  "mono (\<lambda>x :: real. x) \<and>
   quizOutcome (\<lambda>x. x)
     [\<lparr>q_id = 1, question = ''Q1'', options = [''a'', ''b'', ''c''], correctOptionIndex = 1,
        explanation = ''''\<rparr>,
      \<lparr>q_id = 2, question = ''Q2'', options = [''a'', ''b'', ''c''], correctOptionIndex = 0,
        explanation = ''''\<rparr>,
      \<lparr>q_id = 3, question = ''Q3'', options = [''a'', ''b'', ''c''], correctOptionIndex = 2,
        explanation = ''''\<rparr>]
     [1, 0, 0] = Some True \<and>
   quizOutcome (\<lambda>x. x)
     [\<lparr>q_id = 1, question = ''Q1'', options = [''a'', ''b'', ''c''], correctOptionIndex = 1,
        explanation = ''''\<rparr>,
      \<lparr>q_id = 2, question = ''Q2'', options = [''a'', ''b'', ''c''], correctOptionIndex = 0,
        explanation = ''''\<rparr>,
      \<lparr>q_id = 3, question = ''Q3'', options = [''a'', ''b'', ''c''], correctOptionIndex = 2,
        explanation = ''''\<rparr>]
     [1, 1, 1] = Some False"
proof -
  let ?qs = "[\<lparr>q_id = 1, question = ''Q1'', options = [''a'', ''b'', ''c''], correctOptionIndex = 1,
        explanation = ''''\<rparr>,
      \<lparr>q_id = 2, question = ''Q2'', options = [''a'', ''b'', ''c''], correctOptionIndex = 0,
        explanation = ''''\<rparr>,
      \<lparr>q_id = 3, question = ''Q3'', options = [''a'', ''b'', ''c''], correctOptionIndex = 2,
        explanation = ''''\<rparr>]"
  have m: "mono (\<lambda>x :: real. x)" by (simp add: mono_def)
  have ex: "\<forall>k::nat. k \<le> 2 ^ 32 \<longrightarrow> (\<lambda>x :: real. x) (real k) = real k" by simp
  have er: "\<forall>x :: real. 1 / 2 \<le> x \<and> x \<le> 2 ^ 32 \<longrightarrow> \<bar>(\<lambda>x. x) x - x\<bar> \<le> x / 2 ^ 53"
    by simp
  have ne: "?qs \<noteq> []" and sz: "length ?qs < 2 ^ 32" by simp_all
  have l1: "length [1, 0, 0 :: nat] = length ?qs" and l2: "length [1, 1, 1 :: nat] = length ?qs"
    by simp_all
  from quizOutcome_threshold [OF m ex er ne sz l1] quizOutcome_threshold [OF m ex er ne sz l2] m
  show ?thesis by (simp add: correctAnswers_def)
qed

end
